theory Spec2Isabelle
  imports Main
begin

section \<open>JavaScript string primitives used by the extraction pipeline\<close>

text \<open>
  The metric extraction script turns markdown text into a list of metrics with the
  functions \<^verbatim>\<open>parseDeprecationStatus\<close>, \<^verbatim>\<open>parseXTable\<close>, \<^verbatim>\<open>extractMetricFromRow\<close> and
  \<^verbatim>\<open>processMarkdownContent\<close>. They work on JavaScript strings. A string is modelled as a
  \<^typ>\<open>string\<close>, one \<^typ>\<open>char\<close> per UTF-16 code unit, for documents whose code units are
  below 256. Within that range the ECMAScript white space and line terminator characters
  are TAB, LF, VT, FF, CR, SPACE and NBSP, and \<^verbatim>\<open>toLowerCase\<close> maps A-Z and the Latin-1
  capitals (0xC0-0xDE without 0xD7) to their lower-case forms, 32 places up. The calls of
  \<^verbatim>\<open>console.log\<close> have no part in the result and are left out.
\<close>

definition isWhiteSpace :: "char \<Rightarrow> bool" where
  "isWhiteSpace c =
     (c = CHR 0x09 \<or> c = CHR 0x0A \<or> c = CHR 0x0B \<or> c = CHR 0x0C \<or> c = CHR 0x0D \<or>
      c = CHR 0x20 \<or> c = CHR 0xA0)"

text \<open>\<^verbatim>\<open>str.trim()\<close>: white space removed at both ends.\<close>

definition trim :: "string \<Rightarrow> string" where
  "trim s = rev (dropWhile isWhiteSpace (rev (dropWhile isWhiteSpace s)))"

text \<open>
  The capital letters below 256 are A-Z (65-90) and the Latin-1 capitals (192-222 without
  the multiplication sign 215). Bit 5, of value 32, is clear in each of them, so the
  lower-case form, 32 places up, is the same code unit with that bit set.
\<close>

definition isUpperChar :: "char \<Rightarrow> bool" where
  "isUpperChar c =
     (let n = (of_char c :: nat)
      in (65 \<le> n \<and> n \<le> 90) \<or> (192 \<le> n \<and> n \<le> 222 \<and> n \<noteq> 215))"

definition lowerChar :: "char \<Rightarrow> char" where
  "lowerChar c =
     (if isUpperChar c
      then (case c of Char b0 b1 b2 b3 b4 b5 b6 b7 \<Rightarrow> Char b0 b1 b2 b3 b4 True b6 b7)
      else c)"

text \<open>\<^verbatim>\<open>str.toLowerCase()\<close>.\<close>

definition toLowerCase :: "string \<Rightarrow> string" where
  "toLowerCase s = map lowerChar s"

text \<open>\<^verbatim>\<open>str.startsWith(p)\<close>.\<close>

definition startsWith :: "string \<Rightarrow> string \<Rightarrow> bool" where
  "startsWith s p = (take (length p) s = p)"

text \<open>\<^verbatim>\<open>str.includes(p)\<close>: \<open>p\<close> occurs at some position of \<open>s\<close>.\<close>

fun includesStr :: "string \<Rightarrow> string \<Rightarrow> bool" where
  "includesStr [] p = (p = [])"
| "includesStr (c # cs) p = (if startsWith (c # cs) p then True else includesStr cs p)"

text \<open>
  \<^verbatim>\<open>str.split(sep)\<close> for a one-character separator: the segments between the
  occurrences of \<open>sep\<close>; always at least one segment.
\<close>

fun split :: "char \<Rightarrow> string \<Rightarrow> string list" where
  "split sep [] = [[]]"
| "split sep (c # cs) =
     (if c = sep then [] # split sep cs
      else (case split sep cs of
              [] \<Rightarrow> [[c]]
            | seg # segs \<Rightarrow> (c # seg) # segs))"

subsection \<open>The regular expressions\<close>

text \<open>
  The two deprecation patterns \<^verbatim>\<open>/\{-To be deprecated\}/i\<close> and \<^verbatim>\<open>/\{-deprecated\}/i\<close> are
  literal texts matched without regard to case. The pattern characters are ASCII, and the
  canonicalisation of ECMAScript never identifies a non-ASCII code unit with an ASCII one,
  so a code unit matches a pattern character exactly when both have the same
  \<^const>\<open>lowerChar\<close>. \<open>matchesAt pat s\<close>: the pattern matches at the start of \<open>s\<close>.
\<close>

fun matchesAt :: "string \<Rightarrow> string \<Rightarrow> bool" where
  "matchesAt [] s = True"
| "matchesAt (p # ps) [] = False"
| "matchesAt (p # ps) (c # cs) = (if lowerChar c = lowerChar p then matchesAt ps cs else False)"

text \<open>\<^verbatim>\<open>pattern.test(str)\<close>: the pattern matches somewhere.\<close>

fun regexTest :: "string \<Rightarrow> string \<Rightarrow> bool" where
  "regexTest pat [] = matchesAt pat []"
| "regexTest pat (c # cs) = (if matchesAt pat (c # cs) then True else regexTest pat cs)"

text \<open>\<^verbatim>\<open>str.replace(pattern, "")\<close> without the \<^verbatim>\<open>g\<close> flag: the leftmost match is removed.\<close>

fun regexRemoveFirst :: "string \<Rightarrow> string \<Rightarrow> string" where
  "regexRemoveFirst pat [] = []"
| "regexRemoveFirst pat (c # cs) =
     (if matchesAt pat (c # cs) then drop (length pat) (c # cs)
      else c # regexRemoveFirst pat cs)"

section \<open>The data model\<close>

datatype DeprecationStatus = Active | Deprecated | ToBeDeprecated

record Metric =
  name :: string
  category :: string
  subcategory :: string
  type :: string
  description :: string
  commentary :: string
  deprecationStatus :: DeprecationStatus

record ParsedTable =
  headers :: "string list"
  rows :: "string list list"

section \<open>parseDeprecationStatus\<close>

definition toBeDeprecatedPattern :: string where
  "toBeDeprecatedPattern = ''{-To be deprecated}''"

definition deprecatedPattern :: string where
  "deprecatedPattern = ''{-deprecated}''"

definition parseDeprecationStatus :: "string \<Rightarrow> string \<times> DeprecationStatus" where
  "parseDeprecationStatus fieldName =
     (if regexTest toBeDeprecatedPattern fieldName
      then (trim (regexRemoveFirst toBeDeprecatedPattern fieldName), ToBeDeprecated)
      else if regexTest deprecatedPattern fieldName
      then (trim (regexRemoveFirst deprecatedPattern fieldName), Deprecated)
      else (fieldName, Active))"

section \<open>parseXTable\<close>

text \<open>
  \<^verbatim>\<open>h.replace(/\{[\d%]+\}/g, "")\<close>: every match of an opening brace, one or more
  characters each a decimal digit or a percent sign, and a closing brace is removed; the
  scan goes on behind a removed match. The character class is greedy, and only its
  longest run can be followed by the closing brace.
\<close>

definition isDigit :: "char \<Rightarrow> bool" where
  "isDigit c = (c \<in> set ''0123456789'')"

definition isWidthChar :: "char \<Rightarrow> bool" where
  "isWidthChar c = (isDigit c \<or> c = CHR ''%'')"

function stripWidths :: "string \<Rightarrow> string" where
  "stripWidths [] = []"
| "stripWidths (c # cs) =
     (if c = CHR ''{'' \<and> takeWhile isWidthChar cs \<noteq> [] \<and>
         startsWith (dropWhile isWidthChar cs) ''}''
      then stripWidths (tl (dropWhile isWidthChar cs))
      else c # stripWidths cs)"
  by pat_completeness auto
termination
  by (relation "measure length") (simp_all add: le_imp_less_Suc [OF order_trans [OF diff_le_self length_dropWhile_le]])

text \<open>
  Reading the first line of a block that has no non-blank line gives \<^verbatim>\<open>undefined\<close>, and
  \<^verbatim>\<open>headerLine.split\<close> then throws a TypeError.
\<close>

datatype error = TypeError

definition nonBlank :: "string \<Rightarrow> bool" where
  "nonBlank line = (trim line \<noteq> [])"

text \<open>\<^verbatim>\<open>line.replace(/^#/, "")\<close>: one leading hash sign is removed.\<close>

definition removeLeadingHash :: "string \<Rightarrow> string" where
  "removeLeadingHash line = (if startsWith line ''#'' then drop 1 line else line)"

definition parseHeaderLine :: "string \<Rightarrow> string list" where
  "parseHeaderLine headerLine =
     map (\<lambda>h. trim (stripWidths h)) (filter nonBlank (split CHR ''|'' headerLine))"

definition parseDataLine :: "string \<Rightarrow> string list" where
  "parseDataLine line =
     map trim (filter (\<lambda>cell. cell \<noteq> []) (split CHR ''|'' (removeLeadingHash line)))"

definition parseXTable :: "string \<Rightarrow> error + ParsedTable" where
  "parseXTable tableContent =
     (let lines = filter nonBlank (split CHR 0x0A tableContent)
      in case lines of
           [] \<Rightarrow> Inl TypeError
         | headerLine # _ \<Rightarrow>
             Inr \<lparr> headers = parseHeaderLine headerLine,
                   rows = map parseDataLine (drop 2 lines) \<rparr>)"

section \<open>extractMetricFromRow\<close>

text \<open>\<^verbatim>\<open>array.findIndex(p)\<close>; \<open>None\<close> stands for the result \<open>-1\<close>.\<close>

fun findIndex :: "('a \<Rightarrow> bool) \<Rightarrow> 'a list \<Rightarrow> nat option" where
  "findIndex p [] = None"
| "findIndex p (x # xs) = (if p x then Some 0 else map_option Suc (findIndex p xs))"

text \<open>\<^verbatim>\<open>row[i]\<close>; \<open>None\<close> stands for \<^verbatim>\<open>undefined\<close>, the value of a read out of range.\<close>

definition cellAt :: "string list \<Rightarrow> nat \<Rightarrow> string option" where
  "cellAt row i = (if i < length row then Some (row ! i) else None)"

text \<open>
  \<^verbatim>\<open>index !== -1 && row[index] ? f(row[index]) : dflt\<close>: the cell when the column is
  resolved and the cell is a non-empty string, the default otherwise.
\<close>

definition cellOr :: "string list \<Rightarrow> nat option \<Rightarrow> (string \<Rightarrow> string) \<Rightarrow> string \<Rightarrow> string" where
  "cellOr row index f dflt =
     (case index of
        None \<Rightarrow> dflt
      | Some i \<Rightarrow>
          (case cellAt row i of
             None \<Rightarrow> dflt
           | Some v \<Rightarrow> if v \<noteq> [] then f v else dflt))"

definition isFieldHeader :: "string \<Rightarrow> bool" where
  "isFieldHeader h = (includesStr (toLowerCase h) ''field'' \<or> toLowerCase h = ''field'')"

definition isTypeHeader :: "string \<Rightarrow> bool" where
  "isTypeHeader h = (includesStr (toLowerCase h) ''type'' \<or> toLowerCase h = ''type'')"

definition isDescHeader :: "string \<Rightarrow> bool" where
  "isDescHeader h =
     (includesStr (toLowerCase h) ''description'' \<or> toLowerCase h = ''description'')"

definition isDetailHeader :: "string \<Rightarrow> bool" where
  "isDetailHeader h = (includesStr (toLowerCase h) ''detail'' \<or> toLowerCase h = ''details'')"

definition extractMetricFromRow ::
  "string list \<Rightarrow> string list \<Rightarrow> string \<Rightarrow> string \<Rightarrow> Metric option" where
  "extractMetricFromRow row hdrs cat subcat =
     (let fieldIndex = findIndex isFieldHeader hdrs;
          typeIndex = findIndex isTypeHeader hdrs;
          descIndex = findIndex isDescHeader hdrs;
          detailIndex = findIndex isDetailHeader hdrs
      in case fieldIndex of
           None \<Rightarrow> None
         | Some fi \<Rightarrow>
             if length row \<le> fi then None
             else
               (let fieldName = (case cellAt row fi of None \<Rightarrow> [] | Some v \<Rightarrow> v)
                in if startsWith fieldName ''#'' \<or> fieldName = [] \<or> length row < 3
                   then None
                   else
                     (let (cleanName, status) = parseDeprecationStatus fieldName
                      in Some \<lparr> name = cleanName,
                                category = cat,
                                subcategory = subcat,
                                type = cellOr row typeIndex (\<lambda>v. v) ''string'',
                                description = cellOr row descIndex (\<lambda>v. v) [],
                                commentary = cellOr row detailIndex (\<lambda>v. v) [],
                                deprecationStatus = status \<rparr>)))"

section \<open>processMarkdownContent\<close>

text \<open>The four context variables of the line scan.\<close>

record Context =
  currentCategory :: string
  currentSubcategory :: string
  currentSubSubcategory :: string
  currentInlineHeader :: string

definition effectiveSubcategory :: "Context \<Rightarrow> string" where
  "effectiveSubcategory ctx =
     (let e0 = currentSubcategory ctx;
          e1 = (if currentSubSubcategory ctx \<noteq> []
                then currentSubcategory ctx @ '' - '' @ currentSubSubcategory ctx
                else e0)
      in if currentInlineHeader ctx \<noteq> []
         then (if e1 = ''General'' then currentInlineHeader ctx
               else e1 @ '' - '' @ currentInlineHeader ctx)
         else e1)"

text \<open>
  The inline-header test at the head of the \<^verbatim>\<open>forEach\<close> callback: the new inline header
  when the row is one, \<open>None\<close> when the callback goes on to the metric. The callback
  also resolves the description column and reads its cell, but never uses the value.
\<close>

definition inlineHeaderOf :: "string list \<Rightarrow> string list \<Rightarrow> string option" where
  "inlineHeaderOf hdrs row =
     (let fieldIndex = findIndex isFieldHeader hdrs;
          typeIndex = findIndex isTypeHeader hdrs
      in case fieldIndex of
           None \<Rightarrow> None
         | Some fi \<Rightarrow>
             (case cellAt row fi of
                None \<Rightarrow> None
              | Some v \<Rightarrow>
                  if v \<noteq> [] then
                    (let fieldName = trim v;
                         typeValue = cellOr row typeIndex trim []
                     in if fieldName \<noteq> [] \<and> typeValue = [] \<and> \<not> startsWith fieldName ''#''
                        then Some fieldName else None)
                  else None))"

text \<open>One call of the \<^verbatim>\<open>forEach\<close> callback: the context after it and the metric pushed.\<close>

definition processRow :: "Context \<Rightarrow> string list \<Rightarrow> string list \<Rightarrow> Context \<times> Metric option" where
  "processRow ctx hdrs row =
     (case inlineHeaderOf hdrs row of
        Some fieldName \<Rightarrow> (ctx \<lparr> currentInlineHeader := fieldName \<rparr>, None)
      | None \<Rightarrow>
          (ctx, extractMetricFromRow row hdrs (currentCategory ctx) (effectiveSubcategory ctx)))"

fun processRows ::
  "Context \<Rightarrow> Metric list \<Rightarrow> string list \<Rightarrow> string list list \<Rightarrow> Context \<times> Metric list" where
  "processRows ctx metrics hdrs [] = (ctx, metrics)"
| "processRows ctx metrics hdrs (row # rest) =
     (case processRow ctx hdrs row of
        (ctx', None) \<Rightarrow> processRows ctx' metrics hdrs rest
      | (ctx', Some metric) \<Rightarrow> processRows ctx' (metrics @ [metric]) hdrs rest)"

text \<open>The table text collected between the fences: every line followed by a line feed.\<close>

definition tableText :: "string list \<Rightarrow> string" where
  "tableText body = concat (map (\<lambda>l. l @ [CHR 0x0A]) body)"

definition processBlock ::
  "Context \<Rightarrow> Metric list \<Rightarrow> string \<Rightarrow> error + Context \<times> Metric list" where
  "processBlock ctx metrics tableContent =
     (if trim tableContent \<noteq> [] then
        (case parseXTable tableContent of
           Inl e \<Rightarrow> Inl e
         | Inr t \<Rightarrow> Inr (processRows ctx metrics (headers t) (rows t)))
      else Inr (ctx, metrics))"

definition fenceOpen :: string where
  "fenceOpen = [CHR 0x60, CHR 0x60, CHR 0x60] @ ''xtable''"

definition fenceClose :: string where
  "fenceClose = [CHR 0x60, CHR 0x60, CHR 0x60]"

definition notFence :: "string \<Rightarrow> bool" where
  "notFence l = (\<not> includesStr l fenceClose)"

text \<open>
  The \<^verbatim>\<open>while (i < lines.length)\<close> loop, on the lines from index \<open>i\<close> on. After a table
  block the scan resumes behind the closing fence line.
\<close>

function scanLines :: "Context \<Rightarrow> Metric list \<Rightarrow> string list \<Rightarrow> error + Metric list" where
  "scanLines ctx metrics [] = Inr metrics"
| "scanLines ctx metrics (line # rest) =
     (if startsWith line ''# '' \<and> \<not> startsWith line ''## '' then
        scanLines \<lparr> currentCategory = trim (drop 2 line), currentSubcategory = ''General'',
                    currentSubSubcategory = [], currentInlineHeader = [] \<rparr> metrics rest
      else if startsWith line ''## '' \<and> \<not> startsWith line ''### '' then
        scanLines (ctx \<lparr> currentSubcategory := trim (drop 3 line),
                         currentSubSubcategory := [], currentInlineHeader := [] \<rparr>) metrics rest
      else if startsWith line ''### '' then
        scanLines (ctx \<lparr> currentSubSubcategory := trim (drop 4 line),
                         currentInlineHeader := [] \<rparr>) metrics rest
      else if includesStr line fenceOpen then
        (case processBlock ctx metrics (tableText (takeWhile notFence rest)) of
           Inl e \<Rightarrow> Inl e
         | Inr (ctx', metrics') \<Rightarrow> scanLines ctx' metrics' (tl (dropWhile notFence rest)))
      else scanLines ctx metrics rest)"
  by pat_completeness auto
termination
  by (relation "measure (\<lambda>(ctx, metrics, ls). length ls)")
     (simp_all add: le_imp_less_Suc [OF order_trans [OF diff_le_self length_dropWhile_le]])

definition initialContext :: Context where
  "initialContext = \<lparr> currentCategory = ''General'', currentSubcategory = ''General'',
                      currentSubSubcategory = [], currentInlineHeader = [] \<rparr>"

definition processMarkdownContent :: "string \<Rightarrow> error + Metric list" where
  "processMarkdownContent content = scanLines initialContext [] (split CHR 0x0A content)"

section \<open>Notions used in the statements\<close>

text \<open>A string without white space at either end.\<close>

definition noOuterSpace :: "string \<Rightarrow> bool" where
  "noOuterSpace s = (s = [] \<or> (\<not> isWhiteSpace (hd s) \<and> \<not> isWhiteSpace (last s)))"

text \<open>The segments written with the separator between them, as \<^verbatim>\<open>array.join(sep)\<close> does.\<close>

fun joinWith :: "char \<Rightarrow> string list \<Rightarrow> string" where
  "joinWith sep [] = []"
| "joinWith sep [x] = x"
| "joinWith sep (x # y # ys) = x @ sep # joinWith sep (y # ys)"

text \<open>
  The width annotations in the words of the specification: an opening brace, one or more
  decimal digits, an optional percent sign and a closing brace, that is \<^verbatim>\<open>{digits}\<close> or
  \<^verbatim>\<open>{digits%}\<close>. This is the reading against which \<^const>\<open>stripWidths\<close> is compared.
\<close>

function stripWidthsSpec :: "string \<Rightarrow> string" where
  "stripWidthsSpec [] = []"
| "stripWidthsSpec (c # cs) =
     (if c = CHR ''{'' \<and> takeWhile isDigit cs \<noteq> [] \<and> startsWith (dropWhile isDigit cs) ''}''
      then stripWidthsSpec (drop 1 (dropWhile isDigit cs))
      else if c = CHR ''{'' \<and> takeWhile isDigit cs \<noteq> [] \<and>
              startsWith (dropWhile isDigit cs) ''%}''
      then stripWidthsSpec (drop 2 (dropWhile isDigit cs))
      else c # stripWidthsSpec cs)"
  by pat_completeness auto
termination
  by (relation "measure length")
     (simp_all add: le_imp_less_Suc [OF order_trans [OF diff_le_self length_dropWhile_le]])

text \<open>The header line parsed with the annotations as the specification words them.\<close>

definition parseHeaderLineSpec :: "string \<Rightarrow> string list" where
  "parseHeaderLineSpec headerLine =
     map (\<lambda>h. trim (stripWidthsSpec h)) (filter nonBlank (split CHR ''|'' headerLine))"

text \<open>A line that the scan takes for a heading of some level.\<close>

definition isHeading :: "string \<Rightarrow> bool" where
  "isHeading line = (startsWith line ''# '' \<or> startsWith line ''## '' \<or> startsWith line ''### '')"

text \<open>
  A metric name without outer white space that is not empty unless a deprecation marker
  was taken out of it.
\<close>

definition nameOk :: "Metric \<Rightarrow> bool" where
  "nameOk m = (noOuterSpace (name m) \<and> (deprecationStatus m \<noteq> Active \<or> name m \<noteq> []))"

text \<open>
  The metrics that rows give under one fixed context: each row is handed to
  \<^const>\<open>extractMetricFromRow\<close> with the category and the effective subcategory of the
  context, and the metrics returned are kept in the order of the rows. This is what the
  rows of a table block add as long as none of them is an inline header.
\<close>

fun blockMetrics :: "Context \<Rightarrow> string list \<Rightarrow> string list list \<Rightarrow> Metric list" where
  "blockMetrics ctx hdrs [] = []"
| "blockMetrics ctx hdrs (row # rs) =
     (case extractMetricFromRow row hdrs (currentCategory ctx) (effectiveSubcategory ctx) of
        None \<Rightarrow> blockMetrics ctx hdrs rs
      | Some m \<Rightarrow> m # blockMetrics ctx hdrs rs)"

section \<open>Properties of the string primitives\<close>

lemma all_dropWhile_iff: "(\<forall>c\<in>set (dropWhile P s). P c) \<longleftrightarrow> (\<forall>c\<in>set s. P c)"
  by (induction s) auto

lemma trim_eq_Nil_iff: "trim s = [] \<longleftrightarrow> (\<forall>c\<in>set s. isWhiteSpace c)"
proof -
  have "trim s = [] \<longleftrightarrow> (\<forall>c\<in>set (dropWhile isWhiteSpace s). isWhiteSpace c)"
    by (simp add: trim_def dropWhile_eq_Nil_conv)
  then show ?thesis
    by (simp add: all_dropWhile_iff)
qed

lemma last_dropWhile: "dropWhile P xs \<noteq> [] \<Longrightarrow> last (dropWhile P xs) = last xs"
  by (induction xs) (auto split: if_splits)

lemma noOuterSpace_trim: "noOuterSpace (trim s)"
proof (cases "trim s = []")
  case True
  then show ?thesis by (simp add: noOuterSpace_def)
next
  case False
  define d where "d = dropWhile isWhiteSpace s"
  define e where "e = dropWhile isWhiteSpace (rev d)"
  have t: "trim s = rev e" by (simp add: trim_def d_def e_def)
  with False have e: "e \<noteq> []" by simp
  then have d: "d \<noteq> []" by (auto simp: e_def)
  have "\<not> isWhiteSpace (hd e)" using e unfolding e_def by (rule hd_dropWhile)
  then have l: "\<not> isWhiteSpace (last (trim s))" using e by (simp add: t last_rev)
  have "last e = last (rev d)" using e unfolding e_def by (rule last_dropWhile)
  then have "hd (trim s) = hd d" using e d by (simp add: t hd_rev last_rev)
  moreover have "\<not> isWhiteSpace (hd d)" using d unfolding d_def by (rule hd_dropWhile)
  ultimately show ?thesis using l by (simp add: noOuterSpace_def)
qed

lemma dropWhile_hd_id: "xs \<noteq> [] \<Longrightarrow> \<not> P (hd xs) \<Longrightarrow> dropWhile P xs = xs"
  by (cases xs) auto

lemma trim_id: "noOuterSpace s \<Longrightarrow> trim s = s"
proof (cases "s = []")
  case True
  then show ?thesis by (simp add: trim_def)
next
  case False
  assume "noOuterSpace s"
  with False have h: "\<not> isWhiteSpace (hd s)" and l: "\<not> isWhiteSpace (last s)"
    by (auto simp: noOuterSpace_def)
  have "dropWhile isWhiteSpace s = s" using False h by (rule dropWhile_hd_id)
  moreover have "dropWhile isWhiteSpace (rev s) = rev s"
    using False l by (intro dropWhile_hd_id) (simp_all add: hd_rev)
  ultimately show ?thesis by (simp add: trim_def)
qed

lemma trim_trim: "trim (trim s) = trim s"
  by (rule trim_id) (rule noOuterSpace_trim)

lemma split_not_Nil: "split sep s \<noteq> []"
  by (induction s) (auto split: list.splits)

lemma split_no_sep: "sep \<notin> set s \<Longrightarrow> split sep s = [s]"
  by (induction s) auto

lemma split_append_sep:
  "sep \<notin> set x \<Longrightarrow> split sep (x @ sep # s) = x # split sep s"
  by (induction x) auto

lemma split_joinWith:
  "cells \<noteq> [] \<Longrightarrow> \<forall>c\<in>set cells. sep \<notin> set c \<Longrightarrow> split sep (joinWith sep cells) = cells"
proof (induction sep cells rule: joinWith.induct)
  case (1 sep)
  then show ?case by simp
next
  case (2 sep x)
  then show ?case by (simp add: split_no_sep)
next
  case (3 sep x y ys)
  then show ?case by (simp add: split_append_sep)
qed

lemma joinWith_split: "joinWith sep (split sep s) = s"
proof (induction s)
  case Nil
  then show ?case by simp
next
  case (Cons c s)
  show ?case
  proof (cases "c = sep")
    case True
    obtain y ys where "split sep s = y # ys"
      using split_not_Nil [of sep s] by (cases "split sep s") auto
    with Cons True show ?thesis by simp
  next
    case False
    obtain y ys where y: "split sep s = y # ys"
      using split_not_Nil [of sep s] by (cases "split sep s") auto
    with Cons False show ?thesis by (cases ys) auto
  qed
qed

lemma set_split: "\<Union> (set ` set (split sep s)) = set s - {sep}"
proof (induction s)
  case Nil
  then show ?case by simp
next
  case (Cons c s)
  obtain y ys where y: "split sep s = y # ys"
    using split_not_Nil [of sep s] by (cases "split sep s") auto
  with Cons show ?case by auto
qed

lemma split_seg_no_sep: "seg \<in> set (split sep s) \<Longrightarrow> sep \<notin> set seg"
  using set_split [of sep s] by blast

lemma matchesAt_iff:
  "matchesAt pat s \<longleftrightarrow> length pat \<le> length s \<and> toLowerCase (take (length pat) s) = toLowerCase pat"
  by (induction pat s rule: matchesAt.induct) (auto simp: toLowerCase_def)

lemma matchesAt_append:
  "toLowerCase m = toLowerCase pat \<Longrightarrow> matchesAt pat (m @ post)"
proof -
  assume a: "toLowerCase m = toLowerCase pat"
  then have "length m = length pat"
    unfolding toLowerCase_def by (rule map_eq_imp_length_eq)
  with a show ?thesis by (simp add: matchesAt_iff)
qed

lemma matchesAt_split:
  "matchesAt pat s \<Longrightarrow> \<exists>m post. s = m @ post \<and> toLowerCase m = toLowerCase pat"
proof -
  assume "matchesAt pat s"
  then have "toLowerCase (take (length pat) s) = toLowerCase pat"
    by (simp add: matchesAt_iff)
  moreover have "s = take (length pat) s @ drop (length pat) s" by simp
  ultimately show ?thesis by blast
qed

lemma regexTest_intro:
  "toLowerCase m = toLowerCase pat \<Longrightarrow> regexTest pat (pre @ m @ post)"
proof (induction pre)
  case Nil
  then have "matchesAt pat (m @ post)" by (rule matchesAt_append)
  then show ?case by (cases "m @ post") (simp_all del: matchesAt.simps)
next
  case (Cons c pre)
  then show ?case by simp
qed

lemma regexTest_elim:
  "regexTest pat s \<Longrightarrow> \<exists>pre m post. s = pre @ m @ post \<and> toLowerCase m = toLowerCase pat"
proof (induction s)
  case Nil
  then have "pat = []" by (cases pat) simp_all
  then have "[] = [] @ [] @ ([]::string) \<and> toLowerCase [] = toLowerCase pat"
    by (simp add: toLowerCase_def)
  then show ?case by (intro exI)
next
  case (Cons c cs)
  show ?case
  proof (cases "matchesAt pat (c # cs)")
    case True
    then obtain m post where "c # cs = m @ post" and m: "toLowerCase m = toLowerCase pat"
      using matchesAt_split by blast
    then have "c # cs = [] @ m @ post \<and> toLowerCase m = toLowerCase pat" by simp
    then show ?thesis by (intro exI)
  next
    case False
    with Cons.prems have "regexTest pat cs" by simp
    then obtain pre m post where "cs = pre @ m @ post" and m: "toLowerCase m = toLowerCase pat"
      using Cons.IH by blast
    then have "c # cs = (c # pre) @ m @ post \<and> toLowerCase m = toLowerCase pat" by simp
    then show ?thesis by (intro exI)
  qed
qed

lemma regexTest_iff:
  "regexTest pat s \<longleftrightarrow> (\<exists>pre m post. s = pre @ m @ post \<and> toLowerCase m = toLowerCase pat)"
  using regexTest_elim regexTest_intro by blast

text \<open>The removed text is the leftmost match: no match starts inside \<open>pre\<close>.\<close>

lemma regexRemoveFirst_split:
  "regexTest pat s \<Longrightarrow>
   \<exists>pre m post. s = pre @ m @ post \<and> toLowerCase m = toLowerCase pat \<and>
     regexRemoveFirst pat s = pre @ post \<and>
     (\<forall>i<length pre. \<not> matchesAt pat (drop i s))"
proof (induction s)
  case Nil
  then have "pat = []" by (cases pat) auto
  then have "[] = [] @ [] @ ([]::string) \<and> toLowerCase [] = toLowerCase pat \<and>
    regexRemoveFirst pat [] = [] @ [] \<and> (\<forall>i<length ([]::string). \<not> matchesAt pat (drop i []))"
    by simp
  then show ?case by (intro exI)
next
  case (Cons c cs)
  show ?case
  proof (cases "matchesAt pat (c # cs)")
    case True
    define m where "m = take (length pat) (c # cs)"
    define post where "post = drop (length pat) (c # cs)"
    have "c # cs = [] @ m @ post" by (simp add: m_def post_def)
    moreover have "toLowerCase m = toLowerCase pat" using True by (simp add: matchesAt_iff m_def)
    moreover have "regexRemoveFirst pat (c # cs) = [] @ post" using True by (simp add: post_def)
    ultimately have "c # cs = [] @ m @ post \<and> toLowerCase m = toLowerCase pat \<and>
      regexRemoveFirst pat (c # cs) = [] @ post \<and>
      (\<forall>i<length ([]::string). \<not> matchesAt pat (drop i (c # cs)))" by simp
    then show ?thesis by (intro exI)
  next
    case False
    with Cons.prems have "regexTest pat cs" by simp
    with Cons.IH obtain pre m post where s: "cs = pre @ m @ post"
      and m: "toLowerCase m = toLowerCase pat"
      and r: "regexRemoveFirst pat cs = pre @ post"
      and l: "\<forall>i<length pre. \<not> matchesAt pat (drop i cs)"
      by blast
    have 1: "c # cs = (c # pre) @ m @ post" using s by simp
    have 2: "regexRemoveFirst pat (c # cs) = (c # pre) @ post" using False r by simp
    have 3: "\<forall>i<length (c # pre). \<not> matchesAt pat (drop i (c # cs))"
    proof (intro allI impI)
      fix i assume "i < length (c # pre)"
      then show "\<not> matchesAt pat (drop i (c # cs))"
        using False l by (cases i) auto
    qed
    from 1 m 2 3 have "c # cs = (c # pre) @ m @ post \<and> toLowerCase m = toLowerCase pat \<and>
      regexRemoveFirst pat (c # cs) = (c # pre) @ post \<and>
      (\<forall>i<length (c # pre). \<not> matchesAt pat (drop i (c # cs)))" by blast
    then show ?thesis by (intro exI)
  qed
qed

lemma regexRemoveFirst_noop: "\<not> regexTest pat s \<Longrightarrow> regexRemoveFirst pat s = s"
  by (induction s) (auto split: if_splits)

lemma findIndex_None_iff: "findIndex p xs = None \<longleftrightarrow> (\<forall>x\<in>set xs. \<not> p x)"
  by (induction xs) auto

lemma findIndex_Some_iff:
  "findIndex p xs = Some i \<longleftrightarrow> i < length xs \<and> p (xs ! i) \<and> (\<forall>j<i. \<not> p (xs ! j))"
proof (induction xs arbitrary: i)
  case Nil
  show ?case by simp
next
  case (Cons x xs)
  show ?case
  proof (cases "p x")
    case True
    then show ?thesis by (cases i) auto
  next
    case False
    show ?thesis
    proof (cases i)
      case 0
      with False show ?thesis by auto
    next
      case (Suc k)
      have "(\<forall>j<Suc k. \<not> p ((x # xs) ! j)) \<longleftrightarrow> (\<forall>j<k. \<not> p (xs ! j))"
        using False by (auto simp: less_Suc_eq_0_disj)
      with False Suc Cons.IH [of k] show ?thesis by auto
    qed
  qed
qed

section \<open>parseDeprecationStatus: the deprecation markers\<close>

lemmas string_eval =
  isWhiteSpace_def trim_def isUpperChar_def lowerChar_def toLowerCase_def startsWith_def

lemmas header_eval =
  isFieldHeader_def isTypeHeader_def isDescHeader_def isDetailHeader_def

lemmas marker_eval = toBeDeprecatedPattern_def deprecatedPattern_def parseDeprecationStatus_def

lemma parseDeprecationStatus_Spend:
  "parseDeprecationStatus ''Spend {-deprecated}'' = (''Spend'', Deprecated)"
  by (simp add: marker_eval string_eval)

lemma parseDeprecationStatus_Reach:
  "parseDeprecationStatus ''Reach {-To be deprecated}'' = (''Reach'', ToBeDeprecated)"
  by (simp add: marker_eval string_eval)

lemma parseDeprecationStatus_Impressions:
  "parseDeprecationStatus ''Impressions'' = (''Impressions'', Active)"
  by (simp add: marker_eval string_eval)

lemma regexRemoveFirst_cases:
  assumes "regexTest pat s"
  obtains pre m post where "s = pre @ m @ post" and "toLowerCase m = toLowerCase pat"
    and "regexRemoveFirst pat s = pre @ post"
    and "\<forall>i<length pre. \<not> matchesAt pat (drop i s)"
  using regexRemoveFirst_split [OF assms] by blast

text \<open>
  Claim C4, as amended. \<^const>\<open>parseDeprecationStatus\<close> looks for the marker
  \<^verbatim>\<open>{-To be deprecated}\<close> first and for \<^verbatim>\<open>{-deprecated}\<close> second, without regard to case
  and anywhere in the raw field name. On a match the leftmost occurrence of the marker is
  taken out, the rest is trimmed, and the status is \<open>to_be_deprecated\<close> or \<open>deprecated\<close>.
  When neither marker occurs the name is returned exactly as given, with status \<open>active\<close>:
  nothing is trimmed there, so the name has no outer white space only if the input had
  none. The three examples of the specification evaluate as it says.
\<close>

theorem parseDeprecationStatus_spec:
  "(regexTest toBeDeprecatedPattern s \<longrightarrow>
      (\<exists>pre m post. s = pre @ m @ post \<and> toLowerCase m = toLowerCase toBeDeprecatedPattern \<and>
         (\<forall>i<length pre. \<not> matchesAt toBeDeprecatedPattern (drop i s)) \<and>
         parseDeprecationStatus s = (trim (pre @ post), ToBeDeprecated))) \<and>
   (\<not> regexTest toBeDeprecatedPattern s \<and> regexTest deprecatedPattern s \<longrightarrow>
      (\<exists>pre m post. s = pre @ m @ post \<and> toLowerCase m = toLowerCase deprecatedPattern \<and>
         (\<forall>i<length pre. \<not> matchesAt deprecatedPattern (drop i s)) \<and>
         parseDeprecationStatus s = (trim (pre @ post), Deprecated))) \<and>
   (\<not> regexTest toBeDeprecatedPattern s \<and> \<not> regexTest deprecatedPattern s \<longrightarrow>
      parseDeprecationStatus s = (s, Active) \<and>
      (noOuterSpace s \<longrightarrow> noOuterSpace (fst (parseDeprecationStatus s)))) \<and>
   (regexTest pat s \<longleftrightarrow>
      (\<exists>pre m post. s = pre @ m @ post \<and> toLowerCase m = toLowerCase pat)) \<and>
   parseDeprecationStatus ''Spend {-deprecated}'' = (''Spend'', Deprecated) \<and>
   parseDeprecationStatus ''Reach {-To be deprecated}'' = (''Reach'', ToBeDeprecated) \<and>
   parseDeprecationStatus ''Impressions'' = (''Impressions'', Active)"
proof (intro conjI impI)
  assume a: "regexTest toBeDeprecatedPattern s"
  then obtain pre m post where s: "s = pre @ m @ post"
    and m: "toLowerCase m = toLowerCase toBeDeprecatedPattern"
    and r: "regexRemoveFirst toBeDeprecatedPattern s = pre @ post"
    and l: "\<forall>i<length pre. \<not> matchesAt toBeDeprecatedPattern (drop i s)"
    by (rule regexRemoveFirst_cases)
  have p: "parseDeprecationStatus s = (trim (pre @ post), ToBeDeprecated)"
    using a r by (simp add: parseDeprecationStatus_def)
  show "\<exists>pre m post. s = pre @ m @ post \<and> toLowerCase m = toLowerCase toBeDeprecatedPattern \<and>
     (\<forall>i<length pre. \<not> matchesAt toBeDeprecatedPattern (drop i s)) \<and>
     parseDeprecationStatus s = (trim (pre @ post), ToBeDeprecated)"
    by (intro exI conjI, rule s, rule m, rule l, rule p)
next
  assume a: "\<not> regexTest toBeDeprecatedPattern s \<and> regexTest deprecatedPattern s"
  then have "regexTest deprecatedPattern s" by simp
  then obtain pre m post where s: "s = pre @ m @ post"
    and m: "toLowerCase m = toLowerCase deprecatedPattern"
    and r: "regexRemoveFirst deprecatedPattern s = pre @ post"
    and l: "\<forall>i<length pre. \<not> matchesAt deprecatedPattern (drop i s)"
    by (rule regexRemoveFirst_cases)
  have p: "parseDeprecationStatus s = (trim (pre @ post), Deprecated)"
    using a r by (simp add: parseDeprecationStatus_def)
  show "\<exists>pre m post. s = pre @ m @ post \<and> toLowerCase m = toLowerCase deprecatedPattern \<and>
     (\<forall>i<length pre. \<not> matchesAt deprecatedPattern (drop i s)) \<and>
     parseDeprecationStatus s = (trim (pre @ post), Deprecated)"
    by (intro exI conjI, rule s, rule m, rule l, rule p)
next
  assume a: "\<not> regexTest toBeDeprecatedPattern s \<and> \<not> regexTest deprecatedPattern s"
  then show "parseDeprecationStatus s = (s, Active)"
    by (simp add: parseDeprecationStatus_def)
  assume "noOuterSpace s"
  with a show "noOuterSpace (fst (parseDeprecationStatus s))"
    by (simp add: parseDeprecationStatus_def)
next
  show "regexTest pat s \<longleftrightarrow>
      (\<exists>pre m post. s = pre @ m @ post \<and> toLowerCase m = toLowerCase pat)"
    by (rule regexTest_iff)
qed (rule parseDeprecationStatus_Spend parseDeprecationStatus_Reach
       parseDeprecationStatus_Impressions)+

theorem parseDeprecationStatus_spec_witness:
  "regexTest toBeDeprecatedPattern ''Reach {-To Be Deprecated} (old)'' \<and>
   (\<exists>pre m post. ''Reach {-To Be Deprecated} (old)'' = pre @ m @ post \<and>
      toLowerCase m = toLowerCase toBeDeprecatedPattern \<and>
      (\<forall>i<length pre. \<not> matchesAt toBeDeprecatedPattern (drop i ''Reach {-To Be Deprecated} (old)'')) \<and>
      parseDeprecationStatus ''Reach {-To Be Deprecated} (old)'' = (trim (pre @ post), ToBeDeprecated)) \<and>
   (\<not> regexTest toBeDeprecatedPattern ''x{-DEPRECATED}y '' \<and>
      regexTest deprecatedPattern ''x{-DEPRECATED}y '') \<and>
   (\<exists>pre m post. ''x{-DEPRECATED}y '' = pre @ m @ post \<and>
      toLowerCase m = toLowerCase deprecatedPattern \<and>
      (\<forall>i<length pre. \<not> matchesAt deprecatedPattern (drop i ''x{-DEPRECATED}y '')) \<and>
      parseDeprecationStatus ''x{-DEPRECATED}y '' = (trim (pre @ post), Deprecated)) \<and>
   (\<not> regexTest toBeDeprecatedPattern ''Clicks'' \<and> \<not> regexTest deprecatedPattern ''Clicks'') \<and>
   noOuterSpace ''Clicks'' \<and>
   parseDeprecationStatus ''Clicks'' = (''Clicks'', Active) \<and>
   noOuterSpace (fst (parseDeprecationStatus ''Clicks''))"
proof -
  have 1: "regexTest toBeDeprecatedPattern ''Reach {-To Be Deprecated} (old)''"
    by (simp add: marker_eval string_eval)
  have 2: "\<not> regexTest toBeDeprecatedPattern ''x{-DEPRECATED}y '' \<and>
      regexTest deprecatedPattern ''x{-DEPRECATED}y ''"
    by (simp add: marker_eval string_eval)
  have 3: "\<not> regexTest toBeDeprecatedPattern ''Clicks'' \<and> \<not> regexTest deprecatedPattern ''Clicks''"
    by (simp add: marker_eval string_eval)
  have 4: "noOuterSpace ''Clicks''"
    by (simp add: noOuterSpace_def isWhiteSpace_def)
  note t1 = parseDeprecationStatus_spec [of "''Reach {-To Be Deprecated} (old)''",
      THEN conjunct1, THEN mp, OF 1]
  note t2 = parseDeprecationStatus_spec [of "''x{-DEPRECATED}y ''",
      THEN conjunct2, THEN conjunct1, THEN mp, OF 2]
  note t3 = parseDeprecationStatus_spec [of "''Clicks''",
      THEN conjunct2, THEN conjunct2, THEN conjunct1, THEN mp, OF 3]
  note t3a = t3 [THEN conjunct1]
  note t3b = t3 [THEN conjunct2, THEN mp, OF 4]
  show ?thesis
    by (intro conjI 1 t1 2 t2 3 4 t3a t3b)
qed

text \<open>
  Read as "the name is trimmed also when no marker is found", claim C4 fails: a field name
  with outer white space and no marker comes back with the white space still there.
\<close>

theorem parseDeprecationStatus_untrimmed_counterexample:
  "\<not> regexTest toBeDeprecatedPattern '' Impressions '' \<and>
   \<not> regexTest deprecatedPattern '' Impressions '' \<and>
   fst (parseDeprecationStatus '' Impressions '') = '' Impressions '' \<and>
   fst (parseDeprecationStatus '' Impressions '') \<noteq> trim '' Impressions '' \<and>
   \<not> noOuterSpace (fst (parseDeprecationStatus '' Impressions ''))"
  by (simp add: marker_eval string_eval noOuterSpace_def)

section \<open>extractMetricFromRow: rejected rows\<close>

lemma findIndex_Field3: "findIndex isFieldHeader [''Field'', ''Type'', ''Description''] = Some 0"
  by (simp add: header_eval string_eval)

lemma isFieldHeader_Field: "isFieldHeader ''Field''"
  by (simp add: header_eval string_eval)

lemma findIndex_Type3: "findIndex isTypeHeader [''Field'', ''Type'', ''Description''] = Some 1"
  by (simp add: header_eval string_eval)

lemma findIndex_Desc3: "findIndex isDescHeader [''Field'', ''Type'', ''Description''] = Some 2"
  by (simp add: header_eval string_eval)

lemma findIndex_Detail3: "findIndex isDetailHeader [''Field'', ''Type'', ''Description''] = None"
  by (simp add: header_eval string_eval)

lemmas findIndex3 = findIndex_Field3 findIndex_Type3 findIndex_Desc3 findIndex_Detail3

lemma extractMetricFromRow_None_iff:
  "extractMetricFromRow row hdrs cat subcat = None \<longleftrightarrow>
     findIndex isFieldHeader hdrs = None \<or>
     (\<exists>fi. findIndex isFieldHeader hdrs = Some fi \<and>
        (length row \<le> fi \<or> startsWith (row ! fi) ''#'' \<or> row ! fi = [] \<or> length row < 3))"
  by (auto simp: extractMetricFromRow_def Let_def cellAt_def split: option.splits prod.splits)

text \<open>
  Claim C3, as amended. \<^const>\<open>extractMetricFromRow\<close> returns null exactly when no header
  matches the fragment \<open>field\<close>, or the index of the first such header is out of range
  for the row, or the field cell as it was passed (the function does not trim it) starts
  with a hash sign, or the field cell is empty, or the row has fewer than three cells; on
  every other input it returns a metric. A row whose field cell is \<open>#Notes\<close> is rejected
  whatever the other columns hold. The tests stand in \<^const>\<open>extractMetricFromRow\<close> in the
  order of the source, the range test before the read of the field cell.
\<close>

theorem extractMetricFromRow_rejects:
  "(extractMetricFromRow row hdrs cat subcat = None \<longleftrightarrow>
      (\<forall>h\<in>set hdrs. \<not> isFieldHeader h) \<or>
      (\<exists>fi. findIndex isFieldHeader hdrs = Some fi \<and>
         (length row \<le> fi \<or> startsWith (row ! fi) ''#'' \<or> row ! fi = [] \<or> length row < 3))) \<and>
   (findIndex isFieldHeader hdrs = Some k \<longrightarrow>
      k < length hdrs \<and> isFieldHeader (hdrs ! k) \<and> (\<forall>j<k. \<not> isFieldHeader (hdrs ! j))) \<and>
   (findIndex isFieldHeader hdrs = Some k \<and> k < length row \<and> row ! k = ''#Notes'' \<longrightarrow>
      extractMetricFromRow row hdrs cat subcat = None)"
proof (intro conjI impI)
  show "extractMetricFromRow row hdrs cat subcat = None \<longleftrightarrow>
      (\<forall>h\<in>set hdrs. \<not> isFieldHeader h) \<or>
      (\<exists>fi. findIndex isFieldHeader hdrs = Some fi \<and>
         (length row \<le> fi \<or> startsWith (row ! fi) ''#'' \<or> row ! fi = [] \<or> length row < 3))"
    unfolding extractMetricFromRow_None_iff findIndex_None_iff ..
next
  assume "findIndex isFieldHeader hdrs = Some k"
  then show "k < length hdrs" "isFieldHeader (hdrs ! k)" "\<forall>j<k. \<not> isFieldHeader (hdrs ! j)"
    by (simp_all add: findIndex_Some_iff)
next
  assume a: "findIndex isFieldHeader hdrs = Some k \<and> k < length row \<and> row ! k = ''#Notes''"
  then have "startsWith (row ! k) ''#''" by (simp add: startsWith_def)
  with a show "extractMetricFromRow row hdrs cat subcat = None"
    unfolding extractMetricFromRow_None_iff by blast
qed

theorem extractMetricFromRow_rejects_witness:
  "(findIndex isFieldHeader [''Field'', ''Type'', ''Description''] = Some 0 \<and>
      0 < length [''#Notes'', ''number'', ''A note''] \<and>
      [''#Notes'', ''number'', ''A note''] ! 0 = ''#Notes'') \<and>
   extractMetricFromRow [''#Notes'', ''number'', ''A note'']
      [''Field'', ''Type'', ''Description''] ''C'' ''S'' = None \<and>
   extractMetricFromRow [''spend'', ''number'', ''Money spent'']
      [''Field'', ''Type'', ''Description''] ''C'' ''S'' \<noteq> None"
proof -
  have 1: "findIndex isFieldHeader [''Field'', ''Type'', ''Description''] = Some 0 \<and>
      0 < length [''#Notes'', ''number'', ''A note''] \<and>
      [''#Notes'', ''number'', ''A note''] ! 0 = ''#Notes''"
    by (simp add: findIndex_Field3 del: findIndex.simps)
  note t1 = extractMetricFromRow_rejects [of "[''#Notes'', ''number'', ''A note'']"
      "[''Field'', ''Type'', ''Description'']" "''C''" "''S''" 0,
      THEN conjunct2, THEN conjunct2, THEN mp, OF 1]
  have 2: "\<not> ((\<forall>h\<in>set [''Field'', ''Type'', ''Description'']. \<not> isFieldHeader h) \<or>
      (\<exists>fi. findIndex isFieldHeader [''Field'', ''Type'', ''Description''] = Some fi \<and>
         (length [''spend'', ''number'', ''Money spent''] \<le> fi \<or>
          startsWith ([''spend'', ''number'', ''Money spent''] ! fi) ''#'' \<or>
          [''spend'', ''number'', ''Money spent''] ! fi = [] \<or>
          length [''spend'', ''number'', ''Money spent''] < 3)))"
    by (simp add: findIndex_Field3 isFieldHeader_Field startsWith_def del: findIndex.simps)
  have t2: "extractMetricFromRow [''spend'', ''number'', ''Money spent'']
      [''Field'', ''Type'', ''Description''] ''C'' ''S'' \<noteq> None"
    using 2 extractMetricFromRow_rejects [of "[''spend'', ''number'', ''Money spent'']"
      "[''Field'', ''Type'', ''Description'']" "''C''" "''S''", THEN conjunct1]
    by (rule_tac notI) (erule notE, erule iffD1, assumption)
  show ?thesis
    by (intro conjI 1 t1 t2)
qed

text \<open>
  With the field cell trimmed before the test for the hash sign, as claim C3 words it, the
  equivalence fails on a cell with a leading blank: the field column is resolved and in
  range, the cell trimmed starts with a hash sign, and a metric is returned all the same.
\<close>

theorem extractMetricFromRow_untrimmed_counterexample:
  "findIndex isFieldHeader [''Field'', ''Type'', ''Description''] = Some 0 \<and>
   startsWith (trim (['' #Notes'', ''number'', ''A note''] ! 0)) ''#'' \<and>
   extractMetricFromRow ['' #Notes'', ''number'', ''A note'']
       [''Field'', ''Type'', ''Description''] ''C'' ''S''
     = Some \<lparr> name = '' #Notes'', category = ''C'', subcategory = ''S'', type = ''number'',
              description = ''A note'', commentary = [], deprecationStatus = Active \<rparr>"
  by (simp add: cellAt_def cellOr_def extractMetricFromRow_def findIndex3 marker_eval
        string_eval del: findIndex.simps)

section \<open>The effective subcategory\<close>

lemma processRow_metric:
  "processRow ctx hdrs row = (ctx', Some m) \<Longrightarrow> subcategory m = effectiveSubcategory ctx"
  by (auto simp: processRow_def extractMetricFromRow_def Let_def
           split: option.splits if_splits prod.splits)

text \<open>
  Claim C7. A row that is not an inline header is handed to \<^const>\<open>extractMetricFromRow\<close>
  with the effective subcategory of the present context, and that is the subcategory of
  the metric coming back. The effective subcategory is the current subcategory when both
  the sub-subcategory and the inline header are empty; the subcategory, \<open>" - "\<close> and the
  sub-subcategory when only the sub-subcategory is there; and with an inline header it is
  the inline header alone when the text built so far is \<open>General\<close>, otherwise the text
  built so far, \<open>" - "\<close> and the inline header.
\<close>

theorem effectiveSubcategory_composition:
  "(inlineHeaderOf hdrs row = None \<longrightarrow>
      processRow ctx hdrs row =
        (ctx, extractMetricFromRow row hdrs (currentCategory ctx) (effectiveSubcategory ctx))) \<and>
   (processRow ctx hdrs row = (ctx', Some m) \<longrightarrow> subcategory m = effectiveSubcategory ctx) \<and>
   (currentSubSubcategory ctx = [] \<and> currentInlineHeader ctx = [] \<longrightarrow>
      effectiveSubcategory ctx = currentSubcategory ctx) \<and>
   (currentSubSubcategory ctx \<noteq> [] \<and> currentInlineHeader ctx = [] \<longrightarrow>
      effectiveSubcategory ctx = currentSubcategory ctx @ '' - '' @ currentSubSubcategory ctx) \<and>
   (currentInlineHeader ctx \<noteq> [] \<and>
    built = (if currentSubSubcategory ctx \<noteq> []
             then currentSubcategory ctx @ '' - '' @ currentSubSubcategory ctx
             else currentSubcategory ctx) \<longrightarrow>
      effectiveSubcategory ctx =
        (if built = ''General'' then currentInlineHeader ctx
         else built @ '' - '' @ currentInlineHeader ctx))"
proof (intro conjI impI)
  assume "inlineHeaderOf hdrs row = None"
  then show "processRow ctx hdrs row =
        (ctx, extractMetricFromRow row hdrs (currentCategory ctx) (effectiveSubcategory ctx))"
    by (simp add: processRow_def)
next
  assume "processRow ctx hdrs row = (ctx', Some m)"
  then show "subcategory m = effectiveSubcategory ctx" by (rule processRow_metric)
next
  assume "currentSubSubcategory ctx = [] \<and> currentInlineHeader ctx = []"
  then show "effectiveSubcategory ctx = currentSubcategory ctx"
    by (simp add: effectiveSubcategory_def)
next
  assume "currentSubSubcategory ctx \<noteq> [] \<and> currentInlineHeader ctx = []"
  then show "effectiveSubcategory ctx = currentSubcategory ctx @ '' - '' @ currentSubSubcategory ctx"
    by (simp add: effectiveSubcategory_def)
next
  assume "currentInlineHeader ctx \<noteq> [] \<and>
    built = (if currentSubSubcategory ctx \<noteq> []
             then currentSubcategory ctx @ '' - '' @ currentSubSubcategory ctx
             else currentSubcategory ctx)"
  then show "effectiveSubcategory ctx =
        (if built = ''General'' then currentInlineHeader ctx
         else built @ '' - '' @ currentInlineHeader ctx)"
    by (simp add: effectiveSubcategory_def Let_def)
qed

lemmas row_eval = cellAt_def cellOr_def inlineHeaderOf_def extractMetricFromRow_def
  processRow_def effectiveSubcategory_def

theorem effectiveSubcategory_composition_witness:
  "inlineHeaderOf [''Field'', ''Type'', ''Description''] [''cpc'', ''number'', ''Cost''] = None \<and>
   processRow \<lparr> currentCategory = ''Ads'', currentSubcategory = ''General'',
                currentSubSubcategory = [], currentInlineHeader = ''Costs'' \<rparr>
       [''Field'', ''Type'', ''Description''] [''cpc'', ''number'', ''Cost'']
     = (\<lparr> currentCategory = ''Ads'', currentSubcategory = ''General'',
           currentSubSubcategory = [], currentInlineHeader = ''Costs'' \<rparr>,
        Some \<lparr> name = ''cpc'', category = ''Ads'', subcategory = ''Costs'', type = ''number'',
               description = ''Cost'', commentary = [], deprecationStatus = Active \<rparr>) \<and>
   subcategory \<lparr> name = ''cpc'', category = ''Ads'', subcategory = ''Costs'', type = ''number'',
               description = ''Cost'', commentary = [], deprecationStatus = Active \<rparr>
     = effectiveSubcategory \<lparr> currentCategory = ''Ads'', currentSubcategory = ''General'',
                currentSubSubcategory = [], currentInlineHeader = ''Costs'' \<rparr> \<and>
   effectiveSubcategory \<lparr> currentCategory = ''Ads'', currentSubcategory = ''Video'',
                currentSubSubcategory = [], currentInlineHeader = [] \<rparr> = ''Video'' \<and>
   effectiveSubcategory \<lparr> currentCategory = ''Ads'', currentSubcategory = ''Video'',
                currentSubSubcategory = ''Play'', currentInlineHeader = [] \<rparr> = ''Video - Play'' \<and>
   effectiveSubcategory \<lparr> currentCategory = ''Ads'', currentSubcategory = ''General'',
                currentSubSubcategory = [], currentInlineHeader = ''Costs'' \<rparr> = ''Costs'' \<and>
   effectiveSubcategory \<lparr> currentCategory = ''Ads'', currentSubcategory = ''Video'',
                currentSubSubcategory = ''Play'', currentInlineHeader = ''Costs'' \<rparr>
     = ''Video - Play - Costs''"
proof -
  let ?H = "[''Field'', ''Type'', ''Description'']"
  let ?R = "[''cpc'', ''number'', ''Cost'']"
  let ?c1 = "\<lparr> currentCategory = ''Ads'', currentSubcategory = ''General'',
                currentSubSubcategory = [], currentInlineHeader = ''Costs'' \<rparr>"
  let ?c2 = "\<lparr> currentCategory = ''Ads'', currentSubcategory = ''Video'',
                currentSubSubcategory = [], currentInlineHeader = [] \<rparr>"
  let ?c3 = "\<lparr> currentCategory = ''Ads'', currentSubcategory = ''Video'',
                currentSubSubcategory = ''Play'', currentInlineHeader = [] \<rparr>"
  let ?c4 = "\<lparr> currentCategory = ''Ads'', currentSubcategory = ''Video'',
                currentSubSubcategory = ''Play'', currentInlineHeader = ''Costs'' \<rparr>"
  let ?m = "\<lparr> name = ''cpc'', category = ''Ads'', subcategory = ''Costs'', type = ''number'',
               description = ''Cost'', commentary = [], deprecationStatus = Active \<rparr>"
  have 1: "inlineHeaderOf ?H ?R = None"
    by (simp add: inlineHeaderOf_def cellAt_def cellOr_def findIndex3 string_eval
          del: findIndex.simps)
  have 2: "processRow ?c1 ?H ?R = (?c1, Some ?m)"
    by (simp add: row_eval findIndex3 marker_eval string_eval del: findIndex.simps)
  have 3: "currentSubSubcategory ?c2 = [] \<and> currentInlineHeader ?c2 = []" by simp
  have 4: "currentSubSubcategory ?c3 \<noteq> [] \<and> currentInlineHeader ?c3 = []" by simp
  have 5: "currentInlineHeader ?c1 \<noteq> [] \<and>
    ''General'' = (if currentSubSubcategory ?c1 \<noteq> []
             then currentSubcategory ?c1 @ '' - '' @ currentSubSubcategory ?c1
             else currentSubcategory ?c1)" by simp
  have 6: "currentInlineHeader ?c4 \<noteq> [] \<and>
    ''Video - Play'' = (if currentSubSubcategory ?c4 \<noteq> []
             then currentSubcategory ?c4 @ '' - '' @ currentSubSubcategory ?c4
             else currentSubcategory ?c4)" by simp
  note a = effectiveSubcategory_composition [of ?H ?R ?c1 ?c1 ?m]
  note t2 = a [THEN conjunct2, THEN conjunct1, THEN mp, OF 2]
  have t3: "effectiveSubcategory ?c2 = ''Video''"
    using effectiveSubcategory_composition [of ?H ?R ?c2 ?c2 ?m, THEN conjunct2, THEN conjunct2,
        THEN conjunct1, THEN mp, OF 3] by simp
  have t4: "effectiveSubcategory ?c3 = ''Video - Play''"
    using effectiveSubcategory_composition [of ?H ?R ?c3 ?c3 ?m, THEN conjunct2, THEN conjunct2,
        THEN conjunct2, THEN conjunct1, THEN mp, OF 4] by simp
  have t5: "effectiveSubcategory ?c1 = ''Costs''"
    using effectiveSubcategory_composition [of ?H ?R ?c1 ?c1 ?m "''General''", THEN conjunct2,
        THEN conjunct2, THEN conjunct2, THEN conjunct2, THEN mp, OF 5] by simp
  have t6: "effectiveSubcategory ?c4 = ''Video - Play - Costs''"
    using effectiveSubcategory_composition [of ?H ?R ?c4 ?c4 ?m "''Video - Play''", THEN conjunct2,
        THEN conjunct2, THEN conjunct2, THEN conjunct2, THEN mp, OF 6] by simp
  show ?thesis
    by (intro conjI 1 2 t2 t3 t4 t5 t6)
qed

section \<open>parseXTable: headers and rows\<close>

lemmas table_eval = nonBlank_def removeLeadingHash_def parseHeaderLine_def parseDataLine_def
  parseXTable_def isDigit_def isWidthChar_def

lemma stripWidths_plain: "CHR ''{'' \<notin> set s \<Longrightarrow> stripWidths s = s"
  by (induction s) auto

lemma stripWidths_other: "c \<noteq> CHR ''{'' \<Longrightarrow> stripWidths (c # s) = c # stripWidths s"
  by simp

lemma takeWhile_width: "\<forall>c\<in>set w. isWidthChar c \<Longrightarrow> takeWhile isWidthChar (w @ CHR ''}'' # post) = w"
  by (induction w) (auto simp: isWidthChar_def isDigit_def)

lemma dropWhile_width:
  "\<forall>c\<in>set w. isWidthChar c \<Longrightarrow> dropWhile isWidthChar (w @ CHR ''}'' # post) = CHR ''}'' # post"
  by (induction w) (auto simp: isWidthChar_def isDigit_def)

lemma stripWidths_match:
  assumes "w \<noteq> []" and "\<forall>c\<in>set w. isWidthChar c"
  shows "stripWidths (CHR ''{'' # w @ CHR ''}'' # post) = stripWidths post"
  using assms(1)
  by (simp add: takeWhile_width [OF assms(2)] dropWhile_width [OF assms(2)] startsWith_def)

lemma stripWidths_no_match:
  assumes "\<forall>w post. w \<noteq> [] \<and> (\<forall>c\<in>set w. isWidthChar c) \<longrightarrow> s \<noteq> w @ CHR ''}'' # post"
  shows "stripWidths (CHR ''{'' # s) = CHR ''{'' # stripWidths s"
proof -
  have "\<not> (takeWhile isWidthChar s \<noteq> [] \<and> startsWith (dropWhile isWidthChar s) ''}'')"
  proof
    assume a: "takeWhile isWidthChar s \<noteq> [] \<and> startsWith (dropWhile isWidthChar s) ''}''"
    then have "take 1 (dropWhile isWidthChar s) = ''}''" by (simp add: startsWith_def)
    then obtain post where d: "dropWhile isWidthChar s = CHR ''}'' # post"
      by (cases "dropWhile isWidthChar s") auto
    have "s = takeWhile isWidthChar s @ dropWhile isWidthChar s" by simp
    with d have "s = takeWhile isWidthChar s @ CHR ''}'' # post" by simp
    moreover have "\<forall>c\<in>set (takeWhile isWidthChar s). isWidthChar c"
      by (auto dest: set_takeWhileD)
    ultimately show False using a assms by blast
  qed
  then show ?thesis by auto
qed

lemma stripWidths_annotation:
  assumes "CHR ''{'' \<notin> set pre" and "w \<noteq> []" and "\<forall>c\<in>set w. isWidthChar c"
  shows "stripWidths (pre @ CHR ''{'' # w @ CHR ''}'' # post) = pre @ stripWidths post"
  using assms(1)
proof (induction pre)
  case Nil
  show ?case
    using assms(2) by (simp add: takeWhile_width [OF assms(3)] dropWhile_width [OF assms(3)] startsWith_def)
next
  case (Cons c pre)
  then have "c \<noteq> CHR ''{''" by auto
  with Cons show ?case by simp
qed

lemma parseXTable_lines:
  "filter nonBlank (split (CHR 0x0A) t) = headerLine # others \<Longrightarrow>
   parseXTable t = Inr \<lparr> headers = parseHeaderLine headerLine, rows = map parseDataLine (drop 1 others) \<rparr>"
  by (simp add: parseXTable_def)

text \<open>
  Claim C9, as amended. For a block text with at least one non-blank line,
  \<^const>\<open>parseXTable\<close> returns as headers the first non-blank line split at the pipes, the
  segments that are blank dropped, the width annotations removed from each remaining
  segment, and each trimmed. The second non-blank line is skipped unread. Every further
  non-blank line gives one row, in the order of the source: one leading hash sign is
  removed, the line is split at the pipes, the empty segments are dropped and each cell
  is trimmed.

  A width annotation is an opening brace, one or more characters each a decimal digit or
  a percent sign, and a closing brace (so also \<^verbatim>\<open>{%}\<close> or \<^verbatim>\<open>{5%5}\<close>). The removal is
  fixed by four rules, one for every shape of text: the empty text stays empty; a
  character other than an opening brace is kept; an annotation at the front is removed;
  and an opening brace that begins no annotation is kept, the scan going on behind it.
  So \<^verbatim>\<open>D{}\<close> and \<^verbatim>\<open>a{x}b\<close> keep their braces.
\<close>

theorem parseXTable_contract:
  assumes "\<exists>l\<in>set (split (CHR 0x0A) tableContent). nonBlank l"
  shows "(\<exists>headerLine others.
            filter nonBlank (split (CHR 0x0A) tableContent) = headerLine # others \<and>
            parseXTable tableContent =
              Inr \<lparr> headers = map (\<lambda>h. trim (stripWidths h))
                                 (filter (\<lambda>h. trim h \<noteq> []) (split CHR ''|'' headerLine)),
                    rows = map (\<lambda>line. map trim (filter (\<lambda>cell. cell \<noteq> [])
                                  (split CHR ''|''
                                     (if startsWith line ''#'' then drop 1 line else line))))
                               (drop 1 others) \<rparr>) \<and>
         stripWidths [] = [] \<and>
         (c \<noteq> CHR ''{'' \<longrightarrow> stripWidths (c # s) = c # stripWidths s) \<and>
         (w \<noteq> [] \<and> (\<forall>d\<in>set w. isDigit d \<or> d = CHR ''%'') \<longrightarrow>
            stripWidths (''{'' @ w @ ''}'' @ post) = stripWidths post) \<and>
         ((\<forall>w post. w \<noteq> [] \<and> (\<forall>d\<in>set w. isDigit d \<or> d = CHR ''%'') \<longrightarrow>
                     s \<noteq> w @ ''}'' @ post) \<longrightarrow>
            stripWidths (CHR ''{'' # s) = CHR ''{'' # stripWidths s) \<and>
         (CHR ''{'' \<notin> set pre \<and> w \<noteq> [] \<and> (\<forall>d\<in>set w. isDigit d \<or> d = CHR ''%'') \<longrightarrow>
            stripWidths (pre @ ''{'' @ w @ ''}'' @ post) = pre @ stripWidths post) \<and>
         (CHR ''{'' \<notin> set s \<longrightarrow> stripWidths s = s) \<and>
         stripWidths ''D{}'' = ''D{}'' \<and>
         stripWidths ''a{x}b{20%}'' = ''a{x}b'' \<and>
         stripWidths ''Rate{%}{5%5}{12}'' = ''Rate''"
proof (intro conjI impI)
  from assms have "filter nonBlank (split (CHR 0x0A) tableContent) \<noteq> []"
    by (simp add: filter_empty_conv)
  then obtain headerLine others where
    l: "filter nonBlank (split (CHR 0x0A) tableContent) = headerLine # others"
    by (cases "filter nonBlank (split (CHR 0x0A) tableContent)") auto
  have "parseXTable tableContent =
      Inr \<lparr> headers = map (\<lambda>h. trim (stripWidths h))
                         (filter (\<lambda>h. trim h \<noteq> []) (split CHR ''|'' headerLine)),
            rows = map (\<lambda>line. map trim (filter (\<lambda>cell. cell \<noteq> [])
                          (split CHR ''|''
                             (if startsWith line ''#'' then drop 1 line else line))))
                       (drop 1 others) \<rparr>"
    unfolding parseXTable_lines [OF l] parseHeaderLine_def parseDataLine_def
      removeLeadingHash_def nonBlank_def ..
  with l show "\<exists>headerLine others.
            filter nonBlank (split (CHR 0x0A) tableContent) = headerLine # others \<and>
            parseXTable tableContent =
              Inr \<lparr> headers = map (\<lambda>h. trim (stripWidths h))
                                 (filter (\<lambda>h. trim h \<noteq> []) (split CHR ''|'' headerLine)),
                    rows = map (\<lambda>line. map trim (filter (\<lambda>cell. cell \<noteq> [])
                                  (split CHR ''|''
                                     (if startsWith line ''#'' then drop 1 line else line))))
                               (drop 1 others) \<rparr>"
    by (intro exI conjI)
next
  show "stripWidths [] = []" by simp
next
  assume "c \<noteq> CHR ''{''"
  then show "stripWidths (c # s) = c # stripWidths s" by (rule stripWidths_other)
next
  assume "w \<noteq> [] \<and> (\<forall>d\<in>set w. isDigit d \<or> d = CHR ''%'')"
  then have "w \<noteq> []" "\<forall>c\<in>set w. isWidthChar c"
    by (simp_all add: isWidthChar_def)
  from stripWidths_match [OF this]
  show "stripWidths (''{'' @ w @ ''}'' @ post) = stripWidths post" by simp
next
  assume "\<forall>w post. w \<noteq> [] \<and> (\<forall>d\<in>set w. isDigit d \<or> d = CHR ''%'') \<longrightarrow> s \<noteq> w @ ''}'' @ post"
  then have "\<forall>w post. w \<noteq> [] \<and> (\<forall>c\<in>set w. isWidthChar c) \<longrightarrow> s \<noteq> w @ CHR ''}'' # post"
    by (simp add: isWidthChar_def)
  then show "stripWidths (CHR ''{'' # s) = CHR ''{'' # stripWidths s"
    by (rule stripWidths_no_match)
next
  assume "CHR ''{'' \<notin> set pre \<and> w \<noteq> [] \<and> (\<forall>d\<in>set w. isDigit d \<or> d = CHR ''%'')"
  then have "CHR ''{'' \<notin> set pre" "w \<noteq> []" "\<forall>c\<in>set w. isWidthChar c"
    by (simp_all add: isWidthChar_def)
  from stripWidths_annotation [OF this]
  show "stripWidths (pre @ ''{'' @ w @ ''}'' @ post) = pre @ stripWidths post" by simp
next
  assume "CHR ''{'' \<notin> set s"
  then show "stripWidths s = s" by (rule stripWidths_plain)
next
  show "stripWidths ''D{}'' = ''D{}''"
    by (simp add: isWidthChar_def isDigit_def startsWith_def)
  show "stripWidths ''a{x}b{20%}'' = ''a{x}b''"
    by (simp add: isWidthChar_def isDigit_def startsWith_def)
  show "stripWidths ''Rate{%}{5%5}{12}'' = ''Rate''"
    by (simp add: isWidthChar_def isDigit_def startsWith_def)
qed

text \<open>
  With the annotations read as \<^verbatim>\<open>{digits}\<close> or \<^verbatim>\<open>{digits%}\<close> only, as claim C9 words them,
  the headers differ from those of the code: the code also removes \<^verbatim>\<open>{%}\<close>.
\<close>

theorem parseXTable_width_counterexample:
  "parseXTable ''Field{%} | Type'' = Inr \<lparr> headers = [''Field'', ''Type''], rows = [] \<rparr> \<and>
   parseHeaderLineSpec ''Field{%} | Type'' = [''Field{%}'', ''Type'']"
  by (simp add: parseHeaderLineSpec_def table_eval string_eval)

lemma no_annotation_in_brace:
  "\<forall>w post. w \<noteq> [] \<and> (\<forall>d\<in>set w. isDigit d \<or> d = CHR ''%'') \<longrightarrow> ''}'' \<noteq> w @ ''}'' @ post"
proof (intro allI impI notI)
  fix w post :: string
  assume a: "w \<noteq> [] \<and> (\<forall>d\<in>set w. isDigit d \<or> d = CHR ''%'')" and e: "''}'' = w @ ''}'' @ post"
  from e have "length ''}'' = length (w @ ''}'' @ post)" by (rule arg_cong)
  with a show False by simp
qed

lemma no_annotation_in_x:
  "\<forall>w post. w \<noteq> [] \<and> (\<forall>d\<in>set w. isDigit d \<or> d = CHR ''%'') \<longrightarrow> ''x}b'' \<noteq> w @ ''}'' @ post"
proof (intro allI impI notI)
  fix w post :: string
  assume a: "w \<noteq> [] \<and> (\<forall>d\<in>set w. isDigit d \<or> d = CHR ''%'')" and e: "''x}b'' = w @ ''}'' @ post"
  from a obtain d ds where w: "w = d # ds" by (cases w) auto
  with e have "d = CHR ''x''" by simp
  with a w show False by (simp add: isDigit_def)
qed

theorem parseXTable_contract_witness:
  "(\<exists>l\<in>set (split (CHR 0x0A) (''Field{20%} | Type{10}'' @ [CHR 0x0A] @ ''---'' @ [CHR 0x0A] @ ''#a | b'')).
      nonBlank l) \<and>
   (\<exists>headerLine others.
      filter nonBlank (split (CHR 0x0A)
          (''Field{20%} | Type{10}'' @ [CHR 0x0A] @ ''---'' @ [CHR 0x0A] @ ''#a | b''))
        = headerLine # others \<and>
      parseXTable (''Field{20%} | Type{10}'' @ [CHR 0x0A] @ ''---'' @ [CHR 0x0A] @ ''#a | b'') =
        Inr \<lparr> headers = map (\<lambda>h. trim (stripWidths h))
                           (filter (\<lambda>h. trim h \<noteq> []) (split CHR ''|'' headerLine)),
              rows = map (\<lambda>line. map trim (filter (\<lambda>cell. cell \<noteq> [])
                            (split CHR ''|''
                               (if startsWith line ''#'' then drop 1 line else line))))
                         (drop 1 others) \<rparr>) \<and>
   CHR ''D'' \<noteq> CHR ''{'' \<and>
   stripWidths (CHR ''D'' # ''{}'') = CHR ''D'' # stripWidths ''{}'' \<and>
   stripWidths (CHR ''{'' # ''}'') = CHR ''{'' # stripWidths ''}'' \<and>
   stripWidths (CHR ''{'' # ''x}b'') = CHR ''{'' # stripWidths ''x}b'' \<and>
   ''20%'' \<noteq> [] \<and>
   (isDigit CHR ''2'' \<and> isDigit CHR ''0'' \<and> \<not> isDigit CHR ''%'') \<and>
   stripWidths (''{'' @ ''20%'' @ ''}'' @ '' '') = stripWidths '' '' \<and>
   CHR ''{'' \<notin> set ''Field'' \<and>
   stripWidths (''Field'' @ ''{'' @ ''20%'' @ ''}'' @ '' '') = ''Field'' @ stripWidths '' '' \<and>
   CHR ''{'' \<notin> set ''Type'' \<and>
   stripWidths ''Type'' = ''Type''"
proof -
  let ?T = "''Field{20%} | Type{10}'' @ [CHR 0x0A] @ ''---'' @ [CHR 0x0A] @ ''#a | b''"
  have 1: "\<exists>l\<in>set (split (CHR 0x0A) ?T). nonBlank l"
    by (simp add: nonBlank_def string_eval)
  have 2: "CHR ''{'' \<notin> set ''Field'' \<and> ''20%'' \<noteq> [] \<and>
      (\<forall>c\<in>set ''20%''. isDigit c \<or> c = CHR ''%'')"
    by (simp add: isDigit_def)
  have 3: "CHR ''{'' \<notin> set ''Type''" by simp
  have 4: "isDigit CHR ''2'' \<and> isDigit CHR ''0'' \<and> \<not> isDigit CHR ''%''"
    by (simp add: isDigit_def)
  have 5: "CHR ''D'' \<noteq> CHR ''{''" by simp
  note t = parseXTable_contract [of ?T "CHR ''D''" "''{}''" "''20%''" "'' ''" "''Field''", OF 1]
  note t1 = t [THEN conjunct1]
  note t2 = t [THEN conjunct2, THEN conjunct2, THEN conjunct1, THEN mp, OF 5]
  note t3 = t [THEN conjunct2, THEN conjunct2, THEN conjunct2, THEN conjunct1, THEN mp,
      OF 2 [THEN conjunct2]]
  note t4 = parseXTable_contract [of ?T _ "''}''", OF 1, THEN conjunct2, THEN conjunct2,
      THEN conjunct2, THEN conjunct2, THEN conjunct1, THEN mp, OF no_annotation_in_brace]
  note t5 = parseXTable_contract [of ?T _ "''x}b''", OF 1, THEN conjunct2, THEN conjunct2,
      THEN conjunct2, THEN conjunct2, THEN conjunct1, THEN mp, OF no_annotation_in_x]
  note t6 = t [THEN conjunct2, THEN conjunct2, THEN conjunct2, THEN conjunct2, THEN conjunct2,
      THEN conjunct1, THEN mp, OF 2]
  note t7 = parseXTable_contract [of ?T _ "''Type''", OF 1, THEN conjunct2, THEN conjunct2,
      THEN conjunct2, THEN conjunct2, THEN conjunct2, THEN conjunct2, THEN conjunct1, THEN mp,
      OF 3]
  show ?thesis
    by (intro conjI 1 t1 5 t2 t4 t5 2 [THEN conjunct2, THEN conjunct1] 4 t3
          2 [THEN conjunct1] t6 3 t7)
qed

lemma parseDataLine_joinWith:
  assumes "cells \<noteq> []" and "\<forall>c\<in>set cells. CHR ''|'' \<notin> set c"
    and "\<not> startsWith (joinWith CHR ''|'' cells) ''#''"
  shows "parseDataLine (joinWith CHR ''|'' cells) = map trim (filter (\<lambda>c. c \<noteq> []) cells)"
  using assms(3) by (simp add: parseDataLine_def removeLeadingHash_def split_joinWith [OF assms(1,2)])

lemma parseDataLine_hash_joinWith:
  assumes "cells \<noteq> []" and "\<forall>c\<in>set cells. CHR ''|'' \<notin> set c"
  shows "parseDataLine (CHR ''#'' # joinWith CHR ''|'' cells) = map trim (filter (\<lambda>c. c \<noteq> []) cells)"
  by (simp add: parseDataLine_def removeLeadingHash_def startsWith_def split_joinWith [OF assms])

lemma filter_all: "\<forall>x\<in>set xs. P x \<Longrightarrow> filter P xs = xs"
  by (induction xs) auto

text \<open>
  Claim C10. A data row written as cells with pipes between them (with or without the
  leading hash sign) is parsed to the trimmed cells, the cells of length zero left out.
  So when no cell is of length zero the row has as many cells as were written and cell
  \<open>i\<close> of the row is cell \<open>i\<close> as written, trimmed; a cell of white space only is kept as
  the empty string at its own index. A cell of length zero is dropped and the later
  cells move one index to the left: \<^verbatim>\<open>a | | b\<close> gives three cells, \<^verbatim>\<open>a || b\<close> gives two.
\<close>

theorem parseDataLine_blank_cells:
  assumes "cells \<noteq> []" and "\<forall>c\<in>set cells. CHR ''|'' \<notin> set c"
  shows "parseDataLine (CHR ''#'' # joinWith CHR ''|'' cells) = map trim (filter (\<lambda>c. c \<noteq> []) cells) \<and>
         (\<not> startsWith (joinWith CHR ''|'' cells) ''#'' \<longrightarrow>
            parseDataLine (joinWith CHR ''|'' cells) = map trim (filter (\<lambda>c. c \<noteq> []) cells) \<and>
            ((\<forall>c\<in>set cells. c \<noteq> []) \<longrightarrow>
               length (parseDataLine (joinWith CHR ''|'' cells)) = length cells \<and>
               (\<forall>i<length cells.
                  parseDataLine (joinWith CHR ''|'' cells) ! i = trim (cells ! i) \<and>
                  ((\<forall>ch\<in>set (cells ! i). isWhiteSpace ch) \<longrightarrow>
                     parseDataLine (joinWith CHR ''|'' cells) ! i = [])))) \<and>
         parseDataLine ''a | | b'' = [''a'', [], ''b''] \<and>
         parseDataLine ''a || b'' = [''a'', ''b'']"
proof (intro conjI impI allI)
  show "parseDataLine (CHR ''#'' # joinWith CHR ''|'' cells) = map trim (filter (\<lambda>c. c \<noteq> []) cells)"
    using assms by (rule parseDataLine_hash_joinWith)
next
  assume h: "\<not> startsWith (joinWith CHR ''|'' cells) ''#''"
  show e: "parseDataLine (joinWith CHR ''|'' cells) = map trim (filter (\<lambda>c. c \<noteq> []) cells)"
    using assms h by (rule parseDataLine_joinWith)
  assume "\<forall>c\<in>set cells. c \<noteq> []"
  then have f: "filter (\<lambda>c. c \<noteq> []) cells = cells" by (rule filter_all)
  show "length (parseDataLine (joinWith CHR ''|'' cells)) = length cells"
    by (simp add: e f)
  fix i assume i: "i < length cells"
  then show n: "parseDataLine (joinWith CHR ''|'' cells) ! i = trim (cells ! i)"
    by (simp add: e f)
  assume "\<forall>ch\<in>set (cells ! i). isWhiteSpace ch"
  then have "trim (cells ! i) = []" by (simp add: trim_eq_Nil_iff)
  with n show "parseDataLine (joinWith CHR ''|'' cells) ! i = []" by simp
next
  show "parseDataLine ''a | | b'' = [''a'', [], ''b'']"
    by (simp add: parseDataLine_def removeLeadingHash_def string_eval)
  show "parseDataLine ''a || b'' = [''a'', ''b'']"
    by (simp add: parseDataLine_def removeLeadingHash_def string_eval)
qed

theorem parseDataLine_blank_cells_witness:
  "[''a '', '' '', '' b''] \<noteq> [] \<and>
   \<not> startsWith (joinWith CHR ''|'' [''a '', '' '', '' b'']) ''#'' \<and>
   1 < length [''a '', '' '', '' b''] \<and>
   [''a '', '' '', '' b''] ! 1 = '' '' \<and> isWhiteSpace CHR '' '' \<and>
   joinWith CHR ''|'' [''a '', '' '', '' b''] = ''a | | b'' \<and>
   parseDataLine (joinWith CHR ''|'' [''a '', '' '', '' b''])
     = map trim (filter (\<lambda>c. c \<noteq> []) [''a '', '' '', '' b'']) \<and>
   length (parseDataLine (joinWith CHR ''|'' [''a '', '' '', '' b''])) = length [''a '', '' '', '' b''] \<and>
   parseDataLine (joinWith CHR ''|'' [''a '', '' '', '' b'']) ! 1 = [] \<and>
   joinWith CHR ''|'' [''a '', [], '' b''] = ''a || b'' \<and>
   parseDataLine (joinWith CHR ''|'' [''a '', [], '' b''])
     = map trim (filter (\<lambda>c. c \<noteq> []) [''a '', [], '' b''])"
proof -
  let ?A = "[''a '', '' '', '' b'']"
  let ?B = "[''a '', [], '' b'']"
  have 1: "?A \<noteq> []" by simp
  have 2: "\<forall>c\<in>set ?A. CHR ''|'' \<notin> set c" by simp
  have 3: "\<not> startsWith (joinWith CHR ''|'' ?A) ''#''" by (simp add: startsWith_def)
  have 4: "\<forall>c\<in>set ?A. c \<noteq> []" by simp
  have 5: "1 < length ?A" by simp
  have 6: "\<forall>ch\<in>set (?A ! 1). isWhiteSpace ch" by (simp add: isWhiteSpace_def)
  have 7: "joinWith CHR ''|'' ?A = ''a | | b''" by simp
  have 8: "?B \<noteq> []" by simp
  have 9: "\<forall>c\<in>set ?B. CHR ''|'' \<notin> set c" by simp
  have 10: "\<not> startsWith (joinWith CHR ''|'' ?B) ''#''" by (simp add: startsWith_def)
  have 11: "joinWith CHR ''|'' ?B = ''a || b''" by simp
  note a = parseDataLine_blank_cells [OF 1 2, THEN conjunct2, THEN conjunct1, THEN mp, OF 3]
  note a1 = a [THEN conjunct1]
  note a2 = a [THEN conjunct2, THEN mp, OF 4]
  note a3 = a2 [THEN conjunct1]
  note a4 = a2 [THEN conjunct2, THEN spec, THEN mp, OF 5, THEN conjunct2, THEN mp, OF 6]
  note b = parseDataLine_blank_cells [OF 8 9, THEN conjunct2, THEN conjunct1, THEN mp, OF 10]
  note b1 = b [THEN conjunct1]
  have 12: "?A ! 1 = '' ''" "isWhiteSpace CHR '' ''"
    by (simp_all add: isWhiteSpace_def)
  show ?thesis
    by (intro conjI 1 3 5 12 7 a1 a3 a4 11 b1)
qed

section \<open>The line scan\<close>

lemma startsWith_take: "startsWith s p \<Longrightarrow> startsWith s (take n p)"
proof -
  assume "startsWith s p"
  then have "take (length p) s = p" by (simp add: startsWith_def)
  then have "take n (take (length p) s) = take n p" by simp
  then show ?thesis by (simp add: startsWith_def min.commute)
qed

lemma h3_not_h1: "startsWith line ''### '' \<Longrightarrow> \<not> startsWith line ''# ''"
  using startsWith_take [of line "''### ''" 2] by (auto simp: startsWith_def)

lemma h3_not_h2: "startsWith line ''### '' \<Longrightarrow> \<not> startsWith line ''## ''"
  using startsWith_take [of line "''### ''" 3] by (auto simp: startsWith_def)

lemma h2_not_h1: "startsWith line ''## '' \<Longrightarrow> \<not> startsWith line ''# ''"
  using startsWith_take [of line "''## ''" 2] by (auto simp: startsWith_def)

lemma scanLines_h1:
  "startsWith line ''# '' \<Longrightarrow> \<not> startsWith line ''## '' \<Longrightarrow>
   scanLines ctx ms (line # rest) =
     scanLines \<lparr> currentCategory = trim (drop 2 line), currentSubcategory = ''General'',
                 currentSubSubcategory = [], currentInlineHeader = [] \<rparr> ms rest"
  by simp

lemma scanLines_h2:
  "startsWith line ''## '' \<Longrightarrow> \<not> startsWith line ''### '' \<Longrightarrow>
   scanLines ctx ms (line # rest) =
     scanLines (ctx \<lparr> currentSubcategory := trim (drop 3 line),
                      currentSubSubcategory := [], currentInlineHeader := [] \<rparr>) ms rest"
  by (simp add: h2_not_h1)

lemma scanLines_h3:
  "startsWith line ''### '' \<Longrightarrow>
   scanLines ctx ms (line # rest) =
     scanLines (ctx \<lparr> currentSubSubcategory := trim (drop 4 line),
                      currentInlineHeader := [] \<rparr>) ms rest"
  by (simp add: h3_not_h1 h3_not_h2)

lemma scanLines_table:
  "\<not> isHeading line \<Longrightarrow> includesStr line fenceOpen \<Longrightarrow>
   scanLines ctx ms (line # rest) =
     (case processBlock ctx ms (tableText (takeWhile notFence rest)) of
        Inl e \<Rightarrow> Inl e
      | Inr (ctx', ms') \<Rightarrow> scanLines ctx' ms' (tl (dropWhile notFence rest)))"
  by (simp add: isHeading_def)

lemma scanLines_plain:
  "\<not> isHeading line \<Longrightarrow> \<not> includesStr line fenceOpen \<Longrightarrow>
   scanLines ctx ms (line # rest) = scanLines ctx ms rest"
  by (simp add: isHeading_def)

lemma scanLines_cases:
  obtains (h1) "startsWith line ''# ''" "\<not> startsWith line ''## ''"
  | (h2) "startsWith line ''## ''" "\<not> startsWith line ''### ''"
  | (h3) "startsWith line ''### ''"
  | (table) "\<not> isHeading line" "includesStr line fenceOpen"
  | (plain) "\<not> isHeading line" "\<not> includesStr line fenceOpen"
  using h3_not_h2 h2_not_h1 unfolding isHeading_def by blast

text \<open>An invariant of the metrics list that every table block keeps is kept by the scan.\<close>

lemma scanLines_induct_metrics:
  assumes block: "\<And>ctx ms t ctx' ms'. P ms \<Longrightarrow> processBlock ctx ms t = Inr (ctx', ms') \<Longrightarrow> P ms'"
  shows "P ms \<Longrightarrow> scanLines ctx ms ls = Inr out \<Longrightarrow> P out"
proof (induction "length ls" arbitrary: ctx ms ls rule: less_induct)
  case less
  show ?case
  proof (cases ls)
    case Nil
    with less.prems show ?thesis by simp
  next
    case (Cons line rest)
    show ?thesis
    proof (cases line rule: scanLines_cases)
      case h1
      from less.prems(2) have "scanLines \<lparr> currentCategory = trim (drop 2 line),
          currentSubcategory = ''General'', currentSubSubcategory = [],
          currentInlineHeader = [] \<rparr> ms rest = Inr out"
        unfolding Cons scanLines_h1 [OF h1] .
      with less.hyps [of rest] less.prems(1) Cons show ?thesis by simp
    next
      case h2
      from less.prems(2) have "scanLines (ctx \<lparr> currentSubcategory := trim (drop 3 line),
          currentSubSubcategory := [], currentInlineHeader := [] \<rparr>) ms rest = Inr out"
        unfolding Cons scanLines_h2 [OF h2] .
      with less.hyps [of rest] less.prems(1) Cons show ?thesis by simp
    next
      case h3
      from less.prems(2) have "scanLines (ctx \<lparr> currentSubSubcategory := trim (drop 4 line),
          currentInlineHeader := [] \<rparr>) ms rest = Inr out"
        unfolding Cons scanLines_h3 [OF h3] .
      with less.hyps [of rest] less.prems(1) Cons show ?thesis by simp
    next
      case table
      from less.prems(2) have s: "(case processBlock ctx ms (tableText (takeWhile notFence rest)) of
          Inl e \<Rightarrow> Inl e
        | Inr (ctx', ms') \<Rightarrow> scanLines ctx' ms' (tl (dropWhile notFence rest))) = Inr out"
        unfolding Cons scanLines_table [OF table] .
      then obtain ctx' ms' where
        b: "processBlock ctx ms (tableText (takeWhile notFence rest)) = Inr (ctx', ms')"
        and r: "scanLines ctx' ms' (tl (dropWhile notFence rest)) = Inr out"
        by (auto split: sum.splits)
      from block [OF less.prems(1) b] have p: "P ms'" .
      have "length (tl (dropWhile notFence rest)) < length ls"
        unfolding Cons using length_dropWhile_le [of notFence rest] by simp
      from less.hyps [OF this p r] show ?thesis .
    next
      case plain
      from less.prems(2) have "scanLines ctx ms rest = Inr out"
        unfolding Cons scanLines_plain [OF plain] .
      with less.hyps [of rest] less.prems(1) Cons show ?thesis by simp
    qed
  qed
qed

lemma nonBlank_exists:
  assumes "trim t \<noteq> []"
  shows "\<exists>l\<in>set (split (CHR 0x0A) t). nonBlank l"
proof -
  from assms obtain c where c: "c \<in> set t" and w: "\<not> isWhiteSpace c"
    by (auto simp: trim_eq_Nil_iff)
  from w have "c \<noteq> CHR 0x0A" by (auto simp: isWhiteSpace_def)
  with c have "c \<in> \<Union> (set ` set (split (CHR 0x0A) t))" by (simp add: set_split)
  then obtain l where l: "l \<in> set (split (CHR 0x0A) t)" and "c \<in> set l" by blast
  with w have "trim l \<noteq> []" by (auto simp: trim_eq_Nil_iff)
  with l show ?thesis by (auto simp: nonBlank_def)
qed

lemma parseXTable_total:
  assumes "trim t \<noteq> []"
  shows "\<exists>tab. parseXTable t = Inr tab"
proof -
  from nonBlank_exists [OF assms] have "filter nonBlank (split (CHR 0x0A) t) \<noteq> []"
    by (simp add: filter_empty_conv)
  then show ?thesis
    by (cases "filter nonBlank (split (CHR 0x0A) t)") (simp_all add: parseXTable_def)
qed

lemma processBlock_total: "\<exists>ctx' ms'. processBlock ctx ms t = Inr (ctx', ms')"
proof (cases "trim t = []")
  case True
  then show ?thesis by (simp add: processBlock_def)
next
  case False
  from parseXTable_total [OF False] obtain tab where "parseXTable t = Inr tab" ..
  with False have "processBlock ctx ms t = Inr (processRows ctx ms (headers tab) (rows tab))"
    by (simp add: processBlock_def)
  then show ?thesis by (cases "processRows ctx ms (headers tab) (rows tab)") auto
qed

lemma scanLines_total: "\<exists>out. scanLines ctx ms ls = Inr out"
proof (induction "length ls" arbitrary: ctx ms ls rule: less_induct)
  case less
  show ?case
  proof (cases ls)
    case Nil
    then show ?thesis by simp
  next
    case (Cons line rest)
    show ?thesis
    proof (cases line rule: scanLines_cases)
      case h1
      show ?thesis unfolding Cons scanLines_h1 [OF h1] using less [of rest] Cons
        by simp
    next
      case h2
      show ?thesis unfolding Cons scanLines_h2 [OF h2] using less [of rest] Cons
        by simp
    next
      case h3
      show ?thesis unfolding Cons scanLines_h3 [OF h3] using less [of rest] Cons
        by simp
    next
      case table
      obtain ctx' ms' where
        b: "processBlock ctx ms (tableText (takeWhile notFence rest)) = Inr (ctx', ms')"
        using processBlock_total by blast
      have "length (tl (dropWhile notFence rest)) < length ls"
        unfolding Cons using length_dropWhile_le [of notFence rest] by simp
      from less [OF this] obtain out where
        "scanLines ctx' ms' (tl (dropWhile notFence rest)) = Inr out" by blast
      with b show ?thesis unfolding Cons scanLines_table [OF table] by simp
    next
      case plain
      show ?thesis unfolding Cons scanLines_plain [OF plain] using less [of rest] Cons
        by simp
    qed
  qed
qed

section \<open>Totality and the names of the metrics\<close>

lemma processRow_cases:
  obtains (header) h where "inlineHeaderOf hdrs row = Some h"
      "processRow ctx hdrs row = (ctx \<lparr> currentInlineHeader := h \<rparr>, None)"
  | (skip) "inlineHeaderOf hdrs row = None" "processRow ctx hdrs row = (ctx, None)"
      "extractMetricFromRow row hdrs (currentCategory ctx) (effectiveSubcategory ctx) = None"
  | (metric) m where "inlineHeaderOf hdrs row = None" "processRow ctx hdrs row = (ctx, Some m)"
      "extractMetricFromRow row hdrs (currentCategory ctx) (effectiveSubcategory ctx) = Some m"
  by (cases "inlineHeaderOf hdrs row";
      cases "extractMetricFromRow row hdrs (currentCategory ctx) (effectiveSubcategory ctx)")
     (auto simp: processRow_def)

lemma processRows_appends:
  "\<exists>ctx' new. processRows ctx ms hdrs rs = (ctx', ms @ new) \<and> length new \<le> length rs"
proof (induction rs arbitrary: ctx ms)
  case Nil
  then show ?case by simp
next
  case (Cons row rs)
  show ?case
  proof (cases hdrs row ctx rule: processRow_cases)
    case (header h)
    from Cons [of "ctx \<lparr> currentInlineHeader := h \<rparr>" ms] header(2) show ?thesis
      by auto
  next
    case skip
    from Cons [of ctx ms] skip(2) show ?thesis by auto
  next
    case (metric m)
    from Cons [of ctx "ms @ [m]"] obtain ctx' new where
      "processRows ctx (ms @ [m]) hdrs rs = (ctx', ms @ [m] @ new)" "length new \<le> length rs"
      by auto
    with metric(2) have "processRows ctx ms hdrs (row # rs) = (ctx', ms @ (m # new)) \<and>
      length (m # new) \<le> length (row # rs)" by simp
    then show ?thesis by blast
  qed
qed

lemma cellOr_beyond: "length row \<le> i \<Longrightarrow> cellOr row (Some i) f d = d"
  by (simp add: cellOr_def cellAt_def)

lemma extractMetricFromRow_fields:
  assumes "extractMetricFromRow row hdrs cat subcat = Some m"
  shows "type m = cellOr row (findIndex isTypeHeader hdrs) (\<lambda>v. v) ''string''"
    and "description m = cellOr row (findIndex isDescHeader hdrs) (\<lambda>v. v) []"
    and "commentary m = cellOr row (findIndex isDetailHeader hdrs) (\<lambda>v. v) []"
    and "category m = cat" and "subcategory m = subcat"
  using assms
  by (auto simp: extractMetricFromRow_def Let_def split: option.splits if_splits prod.splits)

text \<open>
  Claim C8. For every markdown text \<^const>\<open>processMarkdownContent\<close> returns a list of
  metrics and never throws. A type, description or detail column whose index lies beyond
  the row resolves to the default \<open>string\<close>, empty and empty. A table block whose collected
  text is empty or white space only leaves metrics and context as they are. The rows of
  a block only ever add metrics behind those already there, at most one per row: a row
  that does not fit its headers is skipped.
\<close>

theorem processMarkdownContent_total:
  "(\<exists>metrics. processMarkdownContent content = Inr metrics) \<and>
   (extractMetricFromRow row hdrs cat subcat = Some m \<longrightarrow>
      (findIndex isTypeHeader hdrs = Some i \<and> length row \<le> i \<longrightarrow> type m = ''string'') \<and>
      (findIndex isDescHeader hdrs = Some j \<and> length row \<le> j \<longrightarrow> description m = []) \<and>
      (findIndex isDetailHeader hdrs = Some k \<and> length row \<le> k \<longrightarrow> commentary m = [])) \<and>
   (trim tableContent = [] \<longrightarrow> processBlock ctx ms tableContent = Inr (ctx, ms)) \<and>
   (\<exists>ctx' new. processRows ctx ms hdrs rs = (ctx', ms @ new) \<and> length new \<le> length rs)"
proof (intro conjI impI)
  show "\<exists>metrics. processMarkdownContent content = Inr metrics"
    unfolding processMarkdownContent_def by (rule scanLines_total)
next
  assume e: "extractMetricFromRow row hdrs cat subcat = Some m"
  {
    assume "findIndex isTypeHeader hdrs = Some i \<and> length row \<le> i"
    then show "type m = ''string''"
      by (simp add: extractMetricFromRow_fields(1) [OF e] cellOr_beyond)
  next
    assume "findIndex isDescHeader hdrs = Some j \<and> length row \<le> j"
    then show "description m = []"
      by (simp add: extractMetricFromRow_fields(2) [OF e] cellOr_beyond)
  next
    assume "findIndex isDetailHeader hdrs = Some k \<and> length row \<le> k"
    then show "commentary m = []"
      by (simp add: extractMetricFromRow_fields(3) [OF e] cellOr_beyond)
  }
next
  assume "trim tableContent = []"
  then show "processBlock ctx ms tableContent = Inr (ctx, ms)"
    by (simp add: processBlock_def)
next
  show "\<exists>ctx' new. processRows ctx ms hdrs rs = (ctx', ms @ new) \<and> length new \<le> length rs"
    by (rule processRows_appends)
qed

lemma parseDeprecationStatus_name:
  assumes "parseDeprecationStatus f = (n, st)" and "noOuterSpace f" and "f \<noteq> []"
  shows "noOuterSpace n \<and> (st = Active \<longrightarrow> n \<noteq> [])"
  using assms by (auto simp: parseDeprecationStatus_def noOuterSpace_trim split: if_splits)

lemma extractMetricFromRow_name:
  assumes "extractMetricFromRow row hdrs cat subcat = Some m"
    and "\<forall>c\<in>set row. noOuterSpace c"
  shows "noOuterSpace (name m) \<and> (deprecationStatus m = Active \<longrightarrow> name m \<noteq> [])"
proof -
  from assms(1) obtain fi where fi: "fi < length row" and ne: "row ! fi \<noteq> []"
    and p: "parseDeprecationStatus (row ! fi) = (name m, deprecationStatus m)"
    by (auto simp: extractMetricFromRow_def Let_def cellAt_def
             split: option.splits if_splits prod.splits)
  from fi assms(2) have "noOuterSpace (row ! fi)" by simp
  from parseDeprecationStatus_name [OF p this ne] show ?thesis .
qed

lemma parseXTable_rows_trimmed:
  assumes "parseXTable t = Inr tab" and "row \<in> set (rows tab)" and "c \<in> set row"
  shows "noOuterSpace c"
proof -
  from assms(1,2) obtain line where "row = parseDataLine line"
    by (auto simp: parseXTable_def Let_def split: list.splits)
  with assms(3) obtain x where "c = trim x" by (auto simp: parseDataLine_def)
  then show ?thesis by (simp add: noOuterSpace_trim)
qed

lemma parseXTable_cells_trimmed:
  assumes "parseXTable t = Inr tab" and "row \<in> set (rows tab)" and "c \<in> set row"
  shows "trim c = c"
  using parseXTable_rows_trimmed [OF assms] by (rule trim_id)

lemma processRows_names:
  assumes "\<forall>row\<in>set rs. \<forall>c\<in>set row. noOuterSpace c"
  shows "\<forall>m\<in>set ms. nameOk m \<Longrightarrow> processRows ctx ms hdrs rs = (ctx', ms') \<Longrightarrow>
     \<forall>m\<in>set ms'. nameOk m"
  using assms
proof (induction rs arbitrary: ctx ms)
  case Nil
  then show ?case by simp
next
  case (Cons row rs)
  from Cons.prems(3) have rs: "\<forall>row\<in>set rs. \<forall>c\<in>set row. noOuterSpace c"
    and row: "\<forall>c\<in>set row. noOuterSpace c" by simp_all
  show ?case
  proof (cases hdrs row ctx rule: processRow_cases)
    case (header h)
    with Cons.prems(2) have "processRows (ctx \<lparr> currentInlineHeader := h \<rparr>) ms hdrs rs = (ctx', ms')"
      by simp
    from Cons.IH [OF Cons.prems(1) this rs] show ?thesis .
  next
    case skip
    with Cons.prems(2) have "processRows ctx ms hdrs rs = (ctx', ms')" by simp
    from Cons.IH [OF Cons.prems(1) this rs] show ?thesis .
  next
    case (metric m)
    with Cons.prems(2) have r: "processRows ctx (ms @ [m]) hdrs rs = (ctx', ms')" by simp
    from extractMetricFromRow_name [OF metric(3) row] have "nameOk m"
      by (auto simp: nameOk_def)
    with Cons.prems(1) have "\<forall>m\<in>set (ms @ [m]). nameOk m" by simp
    from Cons.IH [OF this r rs] show ?thesis .
  qed
qed

lemma processBlock_names:
  assumes "\<forall>m\<in>set ms. nameOk m" and "processBlock ctx ms t = Inr (ctx', ms')"
  shows "\<forall>m\<in>set ms'. nameOk m"
proof (cases "trim t = []")
  case True
  with assms show ?thesis by (simp add: processBlock_def)
next
  case False
  with assms(2) obtain tab where tab: "parseXTable t = Inr tab"
    and r: "processRows ctx ms (headers tab) (rows tab) = (ctx', ms')"
    by (auto simp: processBlock_def split: sum.splits)
  have "\<forall>row\<in>set (rows tab). \<forall>c\<in>set row. noOuterSpace c"
    using parseXTable_rows_trimmed [OF tab] by blast
  from processRows_names [OF this assms(1) r] show ?thesis .
qed

text \<open>
  What holds of the names: the name of every metric in the list returned by
  \<^const>\<open>processMarkdownContent\<close> has no white space at either end, and it is not empty when
  the status is \<open>active\<close>. The same holds of every metric that
  \<^const>\<open>extractMetricFromRow\<close> returns for a row whose cells carry no outer white space, as
  the rows of \<^const>\<open>parseXTable\<close> do.
\<close>

lemma metric_names_trimmed:
  "(processMarkdownContent content = Inr metrics \<and> m \<in> set metrics \<longrightarrow>
      noOuterSpace (name m) \<and> (deprecationStatus m = Active \<longrightarrow> name m \<noteq> [])) \<and>
   (extractMetricFromRow row hdrs cat subcat = Some m' \<and> (\<forall>c\<in>set row. noOuterSpace c) \<longrightarrow>
      noOuterSpace (name m') \<and> (deprecationStatus m' = Active \<longrightarrow> name m' \<noteq> []))"
proof (intro conjI impI)
  assume a: "processMarkdownContent content = Inr metrics \<and> m \<in> set metrics"
  have "\<forall>m\<in>set metrics. nameOk m"
  proof (rule scanLines_induct_metrics [where P = "\<lambda>ms. \<forall>m\<in>set ms. nameOk m"])
    show "\<forall>m\<in>set []. nameOk m" by simp
    show "scanLines initialContext [] (split (CHR 0x0A) content) = Inr metrics"
      using a by (simp add: processMarkdownContent_def)
  qed (rule processBlock_names)
  with a have n: "nameOk m" by simp
  then show "noOuterSpace (name m)" by (simp add: nameOk_def)
  assume "deprecationStatus m = Active"
  with n show "name m \<noteq> []" by (simp add: nameOk_def)
next
  assume a: "extractMetricFromRow row hdrs cat subcat = Some m' \<and> (\<forall>c\<in>set row. noOuterSpace c)"
  then have e: "extractMetricFromRow row hdrs cat subcat = Some m'"
    and r: "\<forall>c\<in>set row. noOuterSpace c" by simp_all
  note n = extractMetricFromRow_name [OF e r]
  from n show "noOuterSpace (name m')" by simp
  assume "deprecationStatus m' = Active"
  with n show "name m' \<noteq> []" by simp
qed

lemmas scan_eval = processMarkdownContent_def initialContext_def fenceOpen_def fenceClose_def
  notFence_def tableText_def processBlock_def table_eval row_eval header_eval marker_eval
  string_eval

lemma names_example:
  "processMarkdownContent
     (joinWith (CHR 0x0A) [fenceOpen, ''Field|Type|Note'', ''-'', ''cpc |number|Cost'',
        ''{-deprecated}|number|Gone'', fenceClose])
   = Inr [\<lparr> name = ''cpc'', category = ''General'', subcategory = ''General'', type = ''number'',
             description = [], commentary = [], deprecationStatus = Active \<rparr>,
          \<lparr> name = [], category = ''General'', subcategory = ''General'', type = ''number'',
             description = [], commentary = [], deprecationStatus = Deprecated \<rparr>]"
  by (simp add: scan_eval)

lemma findIndex_Type4: "findIndex isTypeHeader [''Field'', ''A'', ''B'', ''Type''] = Some 3"
  by (simp add: header_eval string_eval)

lemma extract_short_row:
  "extractMetricFromRow [''cpc'', ''x'', ''y''] [''Field'', ''A'', ''B'', ''Type''] ''C'' ''S''
   = Some \<lparr> name = ''cpc'', category = ''C'', subcategory = ''S'', type = ''string'',
            description = [], commentary = [], deprecationStatus = Active \<rparr>"
  by (simp add: row_eval header_eval marker_eval string_eval)

lemma bare_match:
  assumes "f = pre @ m @ post" and "trim (pre @ post) = []" and "noOuterSpace f" and "f \<noteq> []"
  shows "f = m"
proof -
  from assms(2) have w: "\<forall>c\<in>set (pre @ post). isWhiteSpace c" by (simp add: trim_eq_Nil_iff)
  from assms(3,4) have h: "\<not> isWhiteSpace (hd f)" and l: "\<not> isWhiteSpace (last f)"
    by (simp_all add: noOuterSpace_def)
  have "pre = []"
  proof (rule ccontr)
    assume "pre \<noteq> []"
    then have "hd f = hd pre" and "hd pre \<in> set pre" using assms(1) by simp_all
    with w h show False by simp
  qed
  moreover have "post = []"
  proof (rule ccontr)
    assume "post \<noteq> []"
    then have "last f = last post" and "last post \<in> set post" using assms(1) by simp_all
    with w l show False by simp
  qed
  ultimately show ?thesis using assms(1) by simp
qed

text \<open>
  The name comes out empty only for a field cell that is a deprecation marker and nothing
  else.
\<close>

lemma parseDeprecationStatus_empty_name:
  assumes "parseDeprecationStatus f = ([], st)" and "noOuterSpace f" and "f \<noteq> []"
  shows "toLowerCase f = toLowerCase toBeDeprecatedPattern \<or>
         toLowerCase f = toLowerCase deprecatedPattern"
proof (cases "regexTest toBeDeprecatedPattern f")
  case True
  then obtain pre m post where f: "f = pre @ m @ post"
    and m: "toLowerCase m = toLowerCase toBeDeprecatedPattern"
    and r: "regexRemoveFirst toBeDeprecatedPattern f = pre @ post"
    by (rule regexRemoveFirst_cases)
  from assms(1) True r have "trim (pre @ post) = []" by (simp add: parseDeprecationStatus_def)
  from bare_match [OF f this assms(2,3)] m show ?thesis by simp
next
  case False
  show ?thesis
  proof (cases "regexTest deprecatedPattern f")
    case True
    then obtain pre m post where f: "f = pre @ m @ post"
      and m: "toLowerCase m = toLowerCase deprecatedPattern"
      and r: "regexRemoveFirst deprecatedPattern f = pre @ post"
      by (rule regexRemoveFirst_cases)
    from assms(1) False True r have "trim (pre @ post) = []"
      by (simp add: parseDeprecationStatus_def)
    from bare_match [OF f this assms(2,3)] m show ?thesis by simp
  next
    case no: False
    with False assms(1,3) show ?thesis by (simp add: parseDeprecationStatus_def)
  qed
qed

lemma extractMetricFromRow_empty_name:
  assumes "extractMetricFromRow row hdrs cat subcat = Some m" and "name m = []"
    and "\<forall>c\<in>set row. noOuterSpace c"
  shows "\<exists>fi. findIndex isFieldHeader hdrs = Some fi \<and> fi < length row \<and>
           (toLowerCase (row ! fi) = toLowerCase toBeDeprecatedPattern \<or>
            toLowerCase (row ! fi) = toLowerCase deprecatedPattern)"
proof -
  from assms(1) obtain fi where i: "findIndex isFieldHeader hdrs = Some fi"
    and fi: "fi < length row" and ne: "row ! fi \<noteq> []"
    and p: "parseDeprecationStatus (row ! fi) = (name m, deprecationStatus m)"
    by (auto simp: extractMetricFromRow_def Let_def cellAt_def
             split: option.splits if_splits prod.splits)
  from fi assms(3) have n: "noOuterSpace (row ! fi)" by simp
  from p assms(2) have "parseDeprecationStatus (row ! fi) = ([], deprecationStatus m)" by simp
  from parseDeprecationStatus_empty_name [OF this n ne] i fi show ?thesis by blast
qed

text \<open>
  Claim C5. The name of a metric is to be non-empty after the deprecation marker has
  been stripped. The code tests the field cell for emptiness before it strips the marker
  and not after, so a row whose field cell is the marker \<^verbatim>\<open>{-deprecated}\<close> and nothing
  else passes the test and gives a metric whose name is the empty string: of the two
  data rows of this table block the second does.
\<close>

theorem metric_name_empty_for_bare_marker:
  "processMarkdownContent
     (joinWith (CHR 0x0A) [fenceOpen, ''Field|Type|Note'', ''-'', ''cpc |number|Cost'',
        ''{-deprecated}|number|Gone'', fenceClose])
   = Inr [\<lparr> name = ''cpc'', category = ''General'', subcategory = ''General'', type = ''number'',
             description = [], commentary = [], deprecationStatus = Active \<rparr>,
          \<lparr> name = [], category = ''General'', subcategory = ''General'', type = ''number'',
             description = [], commentary = [], deprecationStatus = Deprecated \<rparr>] \<and>
   extractMetricFromRow [''{-deprecated}'', ''number'', ''Gone''] [''Field'', ''Type'', ''Note'']
       ''General'' ''General''
   = Some \<lparr> name = [], category = ''General'', subcategory = ''General'', type = ''number'',
            description = [], commentary = [], deprecationStatus = Deprecated \<rparr>"
proof (intro conjI)
  show "extractMetricFromRow [''{-deprecated}'', ''number'', ''Gone''] [''Field'', ''Type'', ''Note'']
       ''General'' ''General''
   = Some \<lparr> name = [], category = ''General'', subcategory = ''General'', type = ''number'',
            description = [], commentary = [], deprecationStatus = Deprecated \<rparr>"
    by (simp add: row_eval header_eval marker_eval string_eval)
qed (rule names_example)

theorem processMarkdownContent_total_witness:
  "(\<exists>metrics. processMarkdownContent
      (joinWith (CHR 0x0A) [''# A'', fenceOpen, ''   '', fenceClose, fenceOpen]) = Inr metrics) \<and>
   extractMetricFromRow [''cpc'', ''x'', ''y''] [''Field'', ''A'', ''B'', ''Type''] ''C'' ''S''
     = Some \<lparr> name = ''cpc'', category = ''C'', subcategory = ''S'', type = ''string'',
              description = [], commentary = [], deprecationStatus = Active \<rparr> \<and>
   (findIndex isTypeHeader [''Field'', ''A'', ''B'', ''Type''] = Some 3 \<and>
      length [''cpc'', ''x'', ''y''] \<le> 3) \<and>
   type \<lparr> name = ''cpc'', category = ''C'', subcategory = ''S'', type = ''string'',
          description = [], commentary = [], deprecationStatus = Active \<rparr> = ''string'' \<and>
   trim (tableText [''   '', [CHR 0x09]]) = [] \<and>
   processBlock initialContext [] (tableText [''   '', [CHR 0x09]]) = Inr (initialContext, [])"
proof -
  let ?m = "\<lparr> name = ''cpc'', category = ''C'', subcategory = ''S'', type = ''string'',
              description = [], commentary = [], deprecationStatus = Active \<rparr>"
  have 1: "findIndex isTypeHeader [''Field'', ''A'', ''B'', ''Type''] = Some 3 \<and>
      length [''cpc'', ''x'', ''y''] \<le> 3"
    by (simp add: findIndex_Type4 del: findIndex.simps)
  have 2: "trim (tableText [''   '', [CHR 0x09]]) = []"
    by (simp add: tableText_def string_eval)
  note t = processMarkdownContent_total
    [of "joinWith (CHR 0x0A) [''# A'', fenceOpen, ''   '', fenceClose, fenceOpen]"
        "[''cpc'', ''x'', ''y'']" "[''Field'', ''A'', ''B'', ''Type'']" "''C''" "''S''" ?m 3 _ _
        "tableText [''   '', [CHR 0x09]]" initialContext "[]"]
  note t1 = t [THEN conjunct1]
  note t2 = t [THEN conjunct2, THEN conjunct1, THEN mp, OF extract_short_row,
      THEN conjunct1, THEN mp, OF 1]
  note t3 = t [THEN conjunct2, THEN conjunct2, THEN conjunct1, THEN mp, OF 2]
  show ?thesis
    by (intro conjI t1 extract_short_row 1 t2 2 t3)
qed

section \<open>Headings and inline headers\<close>

lemma blockMetrics_context:
  "m \<in> set (blockMetrics ctx hdrs rs) \<Longrightarrow>
   category m = currentCategory ctx \<and> subcategory m = effectiveSubcategory ctx"
proof (induction rs)
  case Nil
  then show ?case by simp
next
  case (Cons row rs)
  show ?case
  proof (cases "extractMetricFromRow row hdrs (currentCategory ctx) (effectiveSubcategory ctx)")
    case None
    with Cons show ?thesis by simp
  next
    case (Some x)
    from extractMetricFromRow_fields(4,5) [OF Some] Cons Some show ?thesis
      by auto
  qed
qed

lemma processRows_quiet:
  assumes "\<forall>r\<in>set rs. inlineHeaderOf hdrs r = None"
  shows "processRows ctx ms hdrs rs = (ctx, ms @ blockMetrics ctx hdrs rs)"
  using assms
proof (induction rs arbitrary: ms)
  case Nil
  then show ?case by simp
next
  case (Cons row rs)
  from Cons.prems have q: "inlineHeaderOf hdrs row = None"
    and rs: "\<forall>r\<in>set rs. inlineHeaderOf hdrs r = None" by simp_all
  show ?case
  proof (cases hdrs row ctx rule: processRow_cases)
    case (header h)
    with q show ?thesis by simp
  next
    case skip
    from Cons.IH [OF rs, of ms] skip(2,3) show ?thesis by simp
  next
    case (metric m)
    from Cons.IH [OF rs, of "ms @ [m]"] metric(2,3) show ?thesis
      by simp
  qed
qed

lemma processRows_append:
  "processRows ctx ms hdrs (xs @ ys) =
     (case processRows ctx ms hdrs xs of (ctx', ms') \<Rightarrow> processRows ctx' ms' hdrs ys)"
proof (induction xs arbitrary: ctx ms)
  case Nil
  show ?case by simp
next
  case (Cons row xs)
  show ?case
  proof (cases hdrs row ctx rule: processRow_cases)
    case (header h)
    with Cons [of "ctx \<lparr> currentInlineHeader := h \<rparr>" ms] show ?thesis by simp
  next
    case skip
    with Cons [of ctx ms] show ?thesis by simp
  next
    case (metric m)
    with Cons [of ctx "ms @ [m]"] show ?thesis by simp
  qed
qed

lemma parseXTable_nonblank:
  assumes "parseXTable t = Inr tab"
  shows "trim t \<noteq> []"
proof -
  from assms obtain l where "l \<in> set (filter nonBlank (split (CHR 0x0A) t))"
    by (cases "filter nonBlank (split (CHR 0x0A) t)") (auto simp: parseXTable_def)
  then have l: "l \<in> set (split (CHR 0x0A) t)" and "trim l \<noteq> []"
    by (simp_all add: nonBlank_def)
  then obtain c where "c \<in> set l" and w: "\<not> isWhiteSpace c"
    by (auto simp: trim_eq_Nil_iff)
  with l have "c \<in> \<Union> (set ` set (split (CHR 0x0A) t))" by blast
  then have "c \<in> set t" by (simp add: set_split)
  with w show ?thesis by (auto simp: trim_eq_Nil_iff)
qed

lemma processBlock_parsed:
  assumes "parseXTable t = Inr tab"
  shows "processBlock ctx ms t = Inr (processRows ctx ms (headers tab) (rows tab))"
  using parseXTable_nonblank [OF assms] assms by (simp add: processBlock_def)

lemma scanLines_gap:
  "\<forall>l\<in>set gap. \<not> isHeading l \<and> \<not> includesStr l fenceOpen \<Longrightarrow>
   scanLines ctx ms (gap @ rest) = scanLines ctx ms rest"
proof (induction gap)
  case Nil
  show ?case by simp
next
  case (Cons l gap)
  then have "scanLines ctx ms ((l # gap) @ rest) = scanLines ctx ms (gap @ rest)"
    using scanLines_plain [of l ctx ms "gap @ rest"] by simp
  with Cons show ?case by simp
qed

lemma scanLines_block:
  assumes "\<not> isHeading opening" and "includesStr opening fenceOpen"
    and "\<forall>l\<in>set body. notFence l" and "\<not> notFence closing"
  shows "scanLines ctx ms (opening # body @ closing # rest) =
     (case processBlock ctx ms (tableText body) of
        Inl e \<Rightarrow> Inl e
      | Inr (ctx', ms') \<Rightarrow> scanLines ctx' ms' rest)"
proof -
  have "takeWhile notFence (body @ closing # rest) = body"
    using assms(3,4) by (simp add: takeWhile_tail)
  moreover have "dropWhile notFence (body @ closing # rest) = closing # rest"
    using assms(3,4) by (simp add: dropWhile_append2)
  ultimately show ?thesis
    unfolding scanLines_table [OF assms(1,2)] by (simp split: sum.splits prod.splits)
qed

lemma scanLines_parsed_block:
  assumes "\<not> isHeading opening" and "includesStr opening fenceOpen"
    and "\<forall>l\<in>set body. notFence l" and "\<not> notFence closing"
    and "parseXTable (tableText body) = Inr tab"
    and "processRows ctx ms (headers tab) (rows tab) = (ctx', ms')"
  shows "scanLines ctx ms (opening # body @ closing # rest) = scanLines ctx' ms' rest"
  unfolding scanLines_block [OF assms(1-4)] processBlock_parsed [OF assms(5)] assms(6) by simp

text \<open>
  A table block whose first rows are no inline headers: the metrics of these rows are
  appended in their order, under the context in which the block was reached; the rows
  behind them can only add further metrics.
\<close>

lemma scanLines_quiet_prefix:
  assumes "\<forall>l\<in>set gap. \<not> isHeading l \<and> \<not> includesStr l fenceOpen"
    and "\<not> isHeading opening" and "includesStr opening fenceOpen"
    and "\<forall>l\<in>set body. notFence l" and "\<not> notFence closing"
    and "parseXTable (tableText body) = Inr tab"
    and "rows tab = quiet @ others"
    and "\<forall>r\<in>set quiet. inlineHeaderOf (headers tab) r = None"
  shows "\<exists>ctx' new.
           scanLines ctx ms (gap @ opening # body @ closing # rest) =
             scanLines ctx' (ms @ blockMetrics ctx (headers tab) quiet @ new) rest \<and>
           (others = [] \<longrightarrow> ctx' = ctx \<and> new = [])"
proof -
  let ?b = "blockMetrics ctx (headers tab) quiet"
  obtain ctx' new where
    o: "processRows ctx (ms @ ?b) (headers tab) others = (ctx', (ms @ ?b) @ new)"
    using processRows_appends [of ctx "ms @ ?b" "headers tab" others] by blast
  have e: "others = [] \<longrightarrow> ctx' = ctx \<and> new = []" using o by auto
  have "processRows ctx ms (headers tab) (rows tab) = (ctx', ms @ ?b @ new)"
    unfolding assms(7) processRows_append processRows_quiet [OF assms(8)] using o by simp
  from scanLines_parsed_block [OF assms(2-6) this]
  have "scanLines ctx ms (gap @ opening # body @ closing # rest) =
      scanLines ctx' (ms @ ?b @ new) rest"
    unfolding scanLines_gap [OF assms(1)] .
  with e show ?thesis by blast
qed



lemma record_h2:
  "ctx \<lparr> currentSubcategory := s, currentSubSubcategory := [], currentInlineHeader := [] \<rparr> =
   \<lparr> currentCategory = currentCategory ctx, currentSubcategory = s,
     currentSubSubcategory = [], currentInlineHeader = [] \<rparr>"
  by (cases ctx) simp

lemma record_h3:
  "ctx \<lparr> currentSubSubcategory := s, currentInlineHeader := [] \<rparr> =
   \<lparr> currentCategory = currentCategory ctx, currentSubcategory = currentSubcategory ctx,
     currentSubSubcategory = s, currentInlineHeader = [] \<rparr>"
  by (cases ctx) simp



text \<open>
  Claim C6, as amended. At the head of the scan a line starting with \<open>"# "\<close> (and not
  \<open>"## "\<close>) sets the category to the rest of the line, trimmed, and resets the subcategory
  to \<open>General\<close> and the sub-subcategory and the inline header to the empty string. A line
  starting with \<open>"## "\<close> (and not \<open>"### "\<close>) sets the subcategory and resets only the
  sub-subcategory and the inline header; a line starting with \<open>"### "\<close> sets the
  sub-subcategory and resets only the inline header. No heading changes a field of a
  higher level. The effect shows in the metrics: the rows of the next table block, up
  to its first inline-header row and with no further heading line in between, give their
  metrics under the context the heading left. So behind a \<open>"# "\<close> heading these metrics
  have the new category and the subcategory \<open>General\<close>, provided that no heading line of
  any level and no inline-header row stands between the heading and the row.
\<close>

theorem heading_reset_cascade:
  assumes "\<forall>l\<in>set gap. \<not> isHeading l \<and> \<not> includesStr l fenceOpen"
    and "\<not> isHeading opening" and "includesStr opening fenceOpen"
    and "\<forall>l\<in>set body. notFence l" and "\<not> notFence closing"
    and "parseXTable (tableText body) = Inr tab"
    and "rows tab = quiet @ others"
    and "\<forall>r\<in>set quiet. inlineHeaderOf (headers tab) r = None"
  shows "(startsWith line ''# '' \<and> \<not> startsWith line ''## '' \<longrightarrow>
            scanLines ctx ms (line # tail) =
              scanLines \<lparr> currentCategory = trim (drop 2 line), currentSubcategory = ''General'',
                  currentSubSubcategory = [], currentInlineHeader = [] \<rparr> ms tail \<and>
            (\<exists>ctx' new.
               scanLines ctx ms (line # gap @ opening # body @ closing # rest) =
                 scanLines ctx'
                   (ms @ blockMetrics
                           \<lparr> currentCategory = trim (drop 2 line), currentSubcategory = ''General'',
                  currentSubSubcategory = [], currentInlineHeader = [] \<rparr>
                           (headers tab) quiet @ new) rest \<and>
               (others = [] \<longrightarrow>
                  ctx' = \<lparr> currentCategory = trim (drop 2 line), currentSubcategory = ''General'',
                  currentSubSubcategory = [], currentInlineHeader = [] \<rparr> \<and>
                  new = [])) \<and>
            (\<forall>m\<in>set (blockMetrics
                        \<lparr> currentCategory = trim (drop 2 line), currentSubcategory = ''General'',
                  currentSubSubcategory = [], currentInlineHeader = [] \<rparr>
                        (headers tab) quiet).
               category m = trim (drop 2 line) \<and> subcategory m = ''General'')) \<and>
         (startsWith line ''## '' \<and> \<not> startsWith line ''### '' \<longrightarrow>
            scanLines ctx ms (line # tail) =
              scanLines \<lparr> currentCategory = currentCategory ctx,
                  currentSubcategory = trim (drop 3 line),
                  currentSubSubcategory = [], currentInlineHeader = [] \<rparr> ms tail \<and>
            (\<exists>ctx' new.
               scanLines ctx ms (line # gap @ opening # body @ closing # rest) =
                 scanLines ctx'
                   (ms @ blockMetrics
                           \<lparr> currentCategory = currentCategory ctx,
                  currentSubcategory = trim (drop 3 line),
                  currentSubSubcategory = [], currentInlineHeader = [] \<rparr>
                           (headers tab) quiet @ new) rest \<and>
               (others = [] \<longrightarrow>
                  ctx' = \<lparr> currentCategory = currentCategory ctx,
                  currentSubcategory = trim (drop 3 line),
                  currentSubSubcategory = [], currentInlineHeader = [] \<rparr> \<and>
                  new = [])) \<and>
            (\<forall>m\<in>set (blockMetrics
                        \<lparr> currentCategory = currentCategory ctx,
                  currentSubcategory = trim (drop 3 line),
                  currentSubSubcategory = [], currentInlineHeader = [] \<rparr>
                        (headers tab) quiet).
               category m = currentCategory ctx \<and> subcategory m = trim (drop 3 line))) \<and>
         (startsWith line ''### '' \<longrightarrow>
            scanLines ctx ms (line # tail) =
              scanLines \<lparr> currentCategory = currentCategory ctx,
                  currentSubcategory = currentSubcategory ctx,
                  currentSubSubcategory = trim (drop 4 line),
                  currentInlineHeader = [] \<rparr> ms tail \<and>
            (\<exists>ctx' new.
               scanLines ctx ms (line # gap @ opening # body @ closing # rest) =
                 scanLines ctx'
                   (ms @ blockMetrics
                           \<lparr> currentCategory = currentCategory ctx,
                  currentSubcategory = currentSubcategory ctx,
                  currentSubSubcategory = trim (drop 4 line),
                  currentInlineHeader = [] \<rparr>
                           (headers tab) quiet @ new) rest \<and>
               (others = [] \<longrightarrow>
                  ctx' = \<lparr> currentCategory = currentCategory ctx,
                  currentSubcategory = currentSubcategory ctx,
                  currentSubSubcategory = trim (drop 4 line),
                  currentInlineHeader = [] \<rparr> \<and>
                  new = [])) \<and>
            (\<forall>m\<in>set (blockMetrics
                        \<lparr> currentCategory = currentCategory ctx,
                  currentSubcategory = currentSubcategory ctx,
                  currentSubSubcategory = trim (drop 4 line),
                  currentInlineHeader = [] \<rparr>
                        (headers tab) quiet).
               category m = currentCategory ctx \<and>
               subcategory m =
                 (if trim (drop 4 line) = [] then currentSubcategory ctx
                  else currentSubcategory ctx @ '' - '' @ trim (drop 4 line))))"
proof (intro conjI impI)
  let ?c = "\<lparr> currentCategory = trim (drop 2 line), currentSubcategory = ''General'',
                  currentSubSubcategory = [], currentInlineHeader = [] \<rparr>"
  assume "startsWith line ''# '' \<and> \<not> startsWith line ''## ''"
  then have h: "startsWith line ''# ''" "\<not> startsWith line ''## ''" by simp_all
  show "scanLines ctx ms (line # tail) = scanLines ?c ms tail"
    unfolding scanLines_h1 [OF h] ..
  from scanLines_quiet_prefix [OF assms, of ?c ms rest] obtain ctx' new where
    s: "scanLines ?c ms (gap @ opening # body @ closing # rest) =
      scanLines ctx' (ms @ blockMetrics ?c (headers tab) quiet @ new) rest"
    and o: "others = [] \<longrightarrow> ctx' = ?c \<and> new = []"
    by blast
  have "scanLines ctx ms (line # gap @ opening # body @ closing # rest) =
      scanLines ?c ms (gap @ opening # body @ closing # rest)"
    unfolding scanLines_h1 [OF h] ..
  with s have "scanLines ctx ms (line # gap @ opening # body @ closing # rest) =
      scanLines ctx' (ms @ blockMetrics ?c (headers tab) quiet @ new) rest" by simp
  with o show "\<exists>ctx' new.
      scanLines ctx ms (line # gap @ opening # body @ closing # rest) =
        scanLines ctx' (ms @ blockMetrics ?c (headers tab) quiet @ new) rest \<and>
      (others = [] \<longrightarrow> ctx' = ?c \<and> new = [])"
    by blast
  show "\<forall>m\<in>set (blockMetrics ?c (headers tab) quiet).
      category m = trim (drop 2 line) \<and> subcategory m = ''General''"
    using blockMetrics_context [of _ ?c "headers tab" quiet]
    by (simp add: effectiveSubcategory_def)
next
  let ?c = "\<lparr> currentCategory = currentCategory ctx,
                  currentSubcategory = trim (drop 3 line),
                  currentSubSubcategory = [], currentInlineHeader = [] \<rparr>"
  assume "startsWith line ''## '' \<and> \<not> startsWith line ''### ''"
  then have h: "startsWith line ''## ''" "\<not> startsWith line ''### ''" by simp_all
  show "scanLines ctx ms (line # tail) = scanLines ?c ms tail"
    unfolding scanLines_h2 [OF h] record_h2 ..
  from scanLines_quiet_prefix [OF assms, of ?c ms rest] obtain ctx' new where
    s: "scanLines ?c ms (gap @ opening # body @ closing # rest) =
      scanLines ctx' (ms @ blockMetrics ?c (headers tab) quiet @ new) rest"
    and o: "others = [] \<longrightarrow> ctx' = ?c \<and> new = []"
    by blast
  have "scanLines ctx ms (line # gap @ opening # body @ closing # rest) =
      scanLines ?c ms (gap @ opening # body @ closing # rest)"
    unfolding scanLines_h2 [OF h] record_h2 ..
  with s have "scanLines ctx ms (line # gap @ opening # body @ closing # rest) =
      scanLines ctx' (ms @ blockMetrics ?c (headers tab) quiet @ new) rest" by simp
  with o show "\<exists>ctx' new.
      scanLines ctx ms (line # gap @ opening # body @ closing # rest) =
        scanLines ctx' (ms @ blockMetrics ?c (headers tab) quiet @ new) rest \<and>
      (others = [] \<longrightarrow> ctx' = ?c \<and> new = [])"
    by blast
  show "\<forall>m\<in>set (blockMetrics ?c (headers tab) quiet).
      category m = currentCategory ctx \<and> subcategory m = trim (drop 3 line)"
    using blockMetrics_context [of _ ?c "headers tab" quiet]
    by (simp add: effectiveSubcategory_def)
next
  let ?c = "\<lparr> currentCategory = currentCategory ctx,
                  currentSubcategory = currentSubcategory ctx,
                  currentSubSubcategory = trim (drop 4 line),
                  currentInlineHeader = [] \<rparr>"
  assume h: "startsWith line ''### ''"
  show "scanLines ctx ms (line # tail) = scanLines ?c ms tail"
    unfolding scanLines_h3 [OF h] record_h3 ..
  from scanLines_quiet_prefix [OF assms, of ?c ms rest] obtain ctx' new where
    s: "scanLines ?c ms (gap @ opening # body @ closing # rest) =
      scanLines ctx' (ms @ blockMetrics ?c (headers tab) quiet @ new) rest"
    and o: "others = [] \<longrightarrow> ctx' = ?c \<and> new = []"
    by blast
  have "scanLines ctx ms (line # gap @ opening # body @ closing # rest) =
      scanLines ?c ms (gap @ opening # body @ closing # rest)"
    unfolding scanLines_h3 [OF h] record_h3 ..
  with s have "scanLines ctx ms (line # gap @ opening # body @ closing # rest) =
      scanLines ctx' (ms @ blockMetrics ?c (headers tab) quiet @ new) rest" by simp
  with o show "\<exists>ctx' new.
      scanLines ctx ms (line # gap @ opening # body @ closing # rest) =
        scanLines ctx' (ms @ blockMetrics ?c (headers tab) quiet @ new) rest \<and>
      (others = [] \<longrightarrow> ctx' = ?c \<and> new = [])"
    by blast
  show "\<forall>m\<in>set (blockMetrics ?c (headers tab) quiet).
      category m = currentCategory ctx \<and>
               subcategory m =
                 (if trim (drop 4 line) = [] then currentSubcategory ctx
                  else currentSubcategory ctx @ '' - '' @ trim (drop 4 line))"
    using blockMetrics_context [of _ ?c "headers tab" quiet]
    by (simp add: effectiveSubcategory_def)
qed

lemma example_block:
  "parseXTable (tableText [''Field|Type|Description'', ''-'', ''cpm|number|Cost per mille'']) =
     Inr \<lparr> headers = [''Field'', ''Type'', ''Description''],
       rows = [[''cpm'', ''number'', ''Cost per mille'']] \<rparr>"
  by (simp add: tableText_def table_eval string_eval)


lemma example_row_quiet:
  "inlineHeaderOf [''Field'', ''Type'', ''Description''] [''cpm'', ''number'', ''Cost per mille''] = None"
  by (simp add: inlineHeaderOf_def cellAt_def cellOr_def findIndex3 string_eval
        del: findIndex.simps)


lemma example_block_rows:
  "rows \<lparr> headers = [''Field'', ''Type'', ''Description''],
       rows = [[''cpm'', ''number'', ''Cost per mille'']] \<rparr> =
     [[''cpm'', ''number'', ''Cost per mille'']] @ []"
  by simp

lemma example_block_quiet:
  "\<forall>r\<in>set [[''cpm'', ''number'', ''Cost per mille'']].
      inlineHeaderOf (headers \<lparr> headers = [''Field'', ''Type'', ''Description''],
       rows = [[''cpm'', ''number'', ''Cost per mille'']] \<rparr>) r = None"
  by (simp add: example_row_quiet)

lemma example_fences:
  "\<not> isHeading fenceOpen" "includesStr fenceOpen fenceOpen" "\<not> notFence fenceClose"
  "\<forall>l\<in>set [''Field|Type|Description'', ''-'', ''cpm|number|Cost per mille'']. notFence l"
  "\<forall>l\<in>set [''Field|Type|Description'', ''-'', ''Costs'', ''cpc|number|Cost per click'']. notFence l"
  by (simp_all add: isHeading_def notFence_def fenceOpen_def fenceClose_def startsWith_def)

lemma example_gap:
  "\<forall>l\<in>set [''Costs of the campaign'', []]. \<not> isHeading l \<and> \<not> includesStr l fenceOpen"
  by (simp add: isHeading_def fenceOpen_def startsWith_def)



lemmas block_eval = cellAt_def cellOr_def extractMetricFromRow_def effectiveSubcategory_def
  initialContext_def findIndex3 marker_eval string_eval


theorem heading_reset_cascade_witness:
  "scanLines \<lparr> currentCategory = ''Ads'', currentSubcategory = ''Old'',
       currentSubSubcategory = ''Deep'', currentInlineHeader = ''Hdr'' \<rparr> []
       (''# Shop'' # [''Costs of the campaign'', []] @ fenceOpen #
        [''Field|Type|Description'', ''-'', ''cpm|number|Cost per mille''] @ fenceClose # []) =
     Inr [\<lparr> name = ''cpm'', category = ''Shop'', subcategory = ''General'', type = ''number'',
       description = ''Cost per mille'', commentary = [], deprecationStatus = Active \<rparr>] \<and>
   scanLines \<lparr> currentCategory = ''Ads'', currentSubcategory = ''Old'',
       currentSubSubcategory = ''Deep'', currentInlineHeader = ''Hdr'' \<rparr> []
       (''## Video'' # [''Costs of the campaign'', []] @ fenceOpen #
        [''Field|Type|Description'', ''-'', ''cpm|number|Cost per mille''] @ fenceClose # []) =
     Inr [\<lparr> name = ''cpm'', category = ''Ads'', subcategory = ''Video'', type = ''number'',
       description = ''Cost per mille'', commentary = [], deprecationStatus = Active \<rparr>] \<and>
   scanLines \<lparr> currentCategory = ''Ads'', currentSubcategory = ''Old'',
       currentSubSubcategory = ''Deep'', currentInlineHeader = ''Hdr'' \<rparr> []
       (''### Play'' # [''Costs of the campaign'', []] @ fenceOpen #
        [''Field|Type|Description'', ''-'', ''cpm|number|Cost per mille''] @ fenceClose # []) =
     Inr [\<lparr> name = ''cpm'', category = ''Ads'', subcategory = ''Old - Play'', type = ''number'',
       description = ''Cost per mille'', commentary = [], deprecationStatus = Active \<rparr>]"
proof -
  let ?tab = "\<lparr> headers = [''Field'', ''Type'', ''Description''],
       rows = [[''cpm'', ''number'', ''Cost per mille'']] \<rparr>"
  have 1: "startsWith ''# Shop'' ''# '' \<and> \<not> startsWith ''# Shop'' ''## ''"
    by (simp add: startsWith_def)
  have 2: "startsWith ''## Video'' ''## '' \<and> \<not> startsWith ''## Video'' ''### ''"
    by (simp add: startsWith_def)
  have 3: "startsWith ''### Play'' ''### ''"
    by (simp add: startsWith_def)
  note t = heading_reset_cascade [OF example_gap example_fences(1,2,4,3) example_block
      example_block_rows example_block_quiet]
  note t1 = t [THEN conjunct1, THEN mp, OF 1, THEN conjunct2, THEN conjunct1]
  note t2 = t [THEN conjunct2, THEN conjunct1, THEN mp, OF 2,
      THEN conjunct2, THEN conjunct1]
  note t3 = t [THEN conjunct2, THEN conjunct2, THEN mp, OF 3,
      THEN conjunct2, THEN conjunct1]
  let ?c1 = "\<lparr> currentCategory = trim (drop 2 ''# Shop''), currentSubcategory = ''General'',
       currentSubSubcategory = [], currentInlineHeader = [] \<rparr>"
  have e1: "blockMetrics \<lparr> currentCategory = trim (drop 2 ''# Shop''), currentSubcategory = ''General'',
       currentSubSubcategory = [], currentInlineHeader = [] \<rparr> (headers ?tab) [[''cpm'', ''number'', ''Cost per mille'']] =
      [\<lparr> name = ''cpm'', category = ''Shop'', subcategory = ''General'', type = ''number'',
       description = ''Cost per mille'', commentary = [], deprecationStatus = Active \<rparr>]"
    by (simp add: block_eval del: findIndex.simps)
  let ?c2 = "\<lparr> currentCategory = currentCategory \<lparr> currentCategory = ''Ads'', currentSubcategory = ''Old'',
       currentSubSubcategory = ''Deep'', currentInlineHeader = ''Hdr'' \<rparr>, currentSubcategory = trim (drop 3 ''## Video''),
       currentSubSubcategory = [], currentInlineHeader = [] \<rparr>"
  have e2: "blockMetrics \<lparr> currentCategory = currentCategory \<lparr> currentCategory = ''Ads'', currentSubcategory = ''Old'',
       currentSubSubcategory = ''Deep'', currentInlineHeader = ''Hdr'' \<rparr>, currentSubcategory = trim (drop 3 ''## Video''),
       currentSubSubcategory = [], currentInlineHeader = [] \<rparr> (headers ?tab) [[''cpm'', ''number'', ''Cost per mille'']] =
      [\<lparr> name = ''cpm'', category = ''Ads'', subcategory = ''Video'', type = ''number'',
       description = ''Cost per mille'', commentary = [], deprecationStatus = Active \<rparr>]"
    by (simp add: block_eval del: findIndex.simps)
  let ?c3 = "\<lparr> currentCategory = currentCategory \<lparr> currentCategory = ''Ads'', currentSubcategory = ''Old'',
       currentSubSubcategory = ''Deep'', currentInlineHeader = ''Hdr'' \<rparr>, currentSubcategory = currentSubcategory \<lparr> currentCategory = ''Ads'', currentSubcategory = ''Old'',
       currentSubSubcategory = ''Deep'', currentInlineHeader = ''Hdr'' \<rparr>,
       currentSubSubcategory = trim (drop 4 ''### Play''), currentInlineHeader = [] \<rparr>"
  have e3: "blockMetrics \<lparr> currentCategory = currentCategory \<lparr> currentCategory = ''Ads'', currentSubcategory = ''Old'',
       currentSubSubcategory = ''Deep'', currentInlineHeader = ''Hdr'' \<rparr>, currentSubcategory = currentSubcategory \<lparr> currentCategory = ''Ads'', currentSubcategory = ''Old'',
       currentSubSubcategory = ''Deep'', currentInlineHeader = ''Hdr'' \<rparr>,
       currentSubSubcategory = trim (drop 4 ''### Play''), currentInlineHeader = [] \<rparr> (headers ?tab) [[''cpm'', ''number'', ''Cost per mille'']] =
      [\<lparr> name = ''cpm'', category = ''Ads'', subcategory = ''Old - Play'', type = ''number'',
       description = ''Cost per mille'', commentary = [], deprecationStatus = Active \<rparr>]"
    by (simp add: block_eval del: findIndex.simps)
  have r1: "scanLines \<lparr> currentCategory = ''Ads'', currentSubcategory = ''Old'',
       currentSubSubcategory = ''Deep'', currentInlineHeader = ''Hdr'' \<rparr> []
       (''# Shop'' # [''Costs of the campaign'', []] @ fenceOpen #
        [''Field|Type|Description'', ''-'', ''cpm|number|Cost per mille''] @ fenceClose # []) =
     Inr [\<lparr> name = ''cpm'', category = ''Shop'', subcategory = ''General'', type = ''number'',
       description = ''Cost per mille'', commentary = [], deprecationStatus = Active \<rparr>]"
  proof -
    from t1 obtain ctx' new where
      a: "scanLines \<lparr> currentCategory = ''Ads'', currentSubcategory = ''Old'',
       currentSubSubcategory = ''Deep'', currentInlineHeader = ''Hdr'' \<rparr> []
       (''# Shop'' # [''Costs of the campaign'', []] @ fenceOpen #
        [''Field|Type|Description'', ''-'', ''cpm|number|Cost per mille''] @ fenceClose # []) =
        scanLines ctx' ([] @ blockMetrics ?c1 (headers ?tab) [[''cpm'', ''number'', ''Cost per mille'']] @ new) []"
      and b: "[] = ([] :: string list list) \<longrightarrow> ctx' = ?c1 \<and> new = []"
      by blast
    from b have n: "new = []" by simp
    show ?thesis unfolding a n e1 by simp
  qed
  have r2: "scanLines \<lparr> currentCategory = ''Ads'', currentSubcategory = ''Old'',
       currentSubSubcategory = ''Deep'', currentInlineHeader = ''Hdr'' \<rparr> []
       (''## Video'' # [''Costs of the campaign'', []] @ fenceOpen #
        [''Field|Type|Description'', ''-'', ''cpm|number|Cost per mille''] @ fenceClose # []) =
     Inr [\<lparr> name = ''cpm'', category = ''Ads'', subcategory = ''Video'', type = ''number'',
       description = ''Cost per mille'', commentary = [], deprecationStatus = Active \<rparr>]"
  proof -
    from t2 obtain ctx' new where
      a: "scanLines \<lparr> currentCategory = ''Ads'', currentSubcategory = ''Old'',
       currentSubSubcategory = ''Deep'', currentInlineHeader = ''Hdr'' \<rparr> []
       (''## Video'' # [''Costs of the campaign'', []] @ fenceOpen #
        [''Field|Type|Description'', ''-'', ''cpm|number|Cost per mille''] @ fenceClose # []) =
        scanLines ctx' ([] @ blockMetrics ?c2 (headers ?tab) [[''cpm'', ''number'', ''Cost per mille'']] @ new) []"
      and b: "[] = ([] :: string list list) \<longrightarrow> ctx' = ?c2 \<and> new = []"
      by blast
    from b have n: "new = []" by simp
    show ?thesis unfolding a n e2 by simp
  qed
  have r3: "scanLines \<lparr> currentCategory = ''Ads'', currentSubcategory = ''Old'',
       currentSubSubcategory = ''Deep'', currentInlineHeader = ''Hdr'' \<rparr> []
       (''### Play'' # [''Costs of the campaign'', []] @ fenceOpen #
        [''Field|Type|Description'', ''-'', ''cpm|number|Cost per mille''] @ fenceClose # []) =
     Inr [\<lparr> name = ''cpm'', category = ''Ads'', subcategory = ''Old - Play'', type = ''number'',
       description = ''Cost per mille'', commentary = [], deprecationStatus = Active \<rparr>]"
  proof -
    from t3 obtain ctx' new where
      a: "scanLines \<lparr> currentCategory = ''Ads'', currentSubcategory = ''Old'',
       currentSubSubcategory = ''Deep'', currentInlineHeader = ''Hdr'' \<rparr> []
       (''### Play'' # [''Costs of the campaign'', []] @ fenceOpen #
        [''Field|Type|Description'', ''-'', ''cpm|number|Cost per mille''] @ fenceClose # []) =
        scanLines ctx' ([] @ blockMetrics ?c3 (headers ?tab) [[''cpm'', ''number'', ''Cost per mille'']] @ new) []"
      and b: "[] = ([] :: string list list) \<longrightarrow> ctx' = ?c3 \<and> new = []"
      by blast
    from b have n: "new = []" by simp
    show ?thesis unfolding a n e3 by simp
  qed
  show ?thesis
    by (intro conjI r1 r2 r3)
qed

text \<open>
  Without that proviso claim C6 fails, also with no \<open>"## "\<close> line in between: behind a
  fresh \<open>"# "\<close> heading an inline-header row makes the subcategory of the next metric the
  inline header, and a \<open>"### "\<close> line makes it \<open>General - Deep\<close>.
\<close>

theorem heading_reset_counterexample:
  "processMarkdownContent
     (joinWith (CHR 0x0A) [''# Fresh'', fenceOpen, ''Field|Type|Description'', ''-'', ''Hdr'',
        ''m5|number|x'', fenceClose])
   = Inr [\<lparr> name = ''m5'', category = ''Fresh'', subcategory = ''Hdr'', type = ''number'',
             description = ''x'', commentary = [], deprecationStatus = Active \<rparr>] \<and>
   processMarkdownContent
     (joinWith (CHR 0x0A) [''# Fresh'', ''### Deep'', fenceOpen, ''Field|Type|Description'',
        ''-'', ''m5|number|x'', fenceClose])
   = Inr [\<lparr> name = ''m5'', category = ''Fresh'', subcategory = ''General - Deep'',
             type = ''number'', description = ''x'', commentary = [],
             deprecationStatus = Active \<rparr>]"
  by (simp add: scan_eval)

section \<open>The end-to-end example\<close>

lemma end_to_end_eval:
  "processMarkdownContent
     (joinWith (CHR 0x0A)
        [''# Engagement'', ''## Video Metrics'', fenceOpen, ''Field | Type | Description'',
         ''---'', ''video_views | number | Total views'', ''#Legacy Fields'',
         ''total_comments {-deprecated} | number | Total comments'', fenceClose])
   = Inr [\<lparr> name = ''video_views'', category = ''Engagement'',
             subcategory = ''Video Metrics'', type = ''number'',
             description = ''Total views'', commentary = [], deprecationStatus = Active \<rparr>,
          \<lparr> name = ''total_comments'', category = ''Engagement'',
             subcategory = ''Video Metrics - Legacy Fields'', type = ''number'',
             description = ''Total comments'', commentary = [],
             deprecationStatus = Deprecated \<rparr>]"
  by (simp add: scan_eval)

text \<open>
  Claim C1, as amended. For the document of the lines \<^verbatim>\<open># Engagement\<close>,
  \<^verbatim>\<open>## Video Metrics\<close> and the table block with the header line, the separator line and the
  three data lines, \<^const>\<open>processMarkdownContent\<close> yields exactly two metrics. The first is
  \<open>video_views\<close> with subcategory \<open>Video Metrics\<close>. The row \<^verbatim>\<open>#Legacy Fields\<close> gives no
  metric: with its hash sign removed it is a row of one cell, which the scan takes for
  an inline header. So the second metric, \<open>total_comments\<close> with status \<open>deprecated\<close>, has
  the subcategory \<open>Video Metrics - Legacy Fields\<close>.
\<close>

theorem end_to_end_example:
  "processMarkdownContent
     (joinWith (CHR 0x0A)
        [''# Engagement'', ''## Video Metrics'', fenceOpen, ''Field | Type | Description'',
         ''---'', ''video_views | number | Total views'', ''#Legacy Fields'',
         ''total_comments {-deprecated} | number | Total comments'', fenceClose])
   = Inr [\<lparr> name = ''video_views'', category = ''Engagement'',
             subcategory = ''Video Metrics'', type = ''number'',
             description = ''Total views'', commentary = [], deprecationStatus = Active \<rparr>,
          \<lparr> name = ''total_comments'', category = ''Engagement'',
             subcategory = ''Video Metrics - Legacy Fields'', type = ''number'',
             description = ''Total comments'', commentary = [],
             deprecationStatus = Deprecated \<rparr>] \<and>
   parseDataLine ''#Legacy Fields'' = [''Legacy Fields''] \<and>
   processRow \<lparr> currentCategory = ''Engagement'', currentSubcategory = ''Video Metrics'',
                currentSubSubcategory = [], currentInlineHeader = [] \<rparr>
       [''Field'', ''Type'', ''Description''] [''Legacy Fields'']
     = (\<lparr> currentCategory = ''Engagement'', currentSubcategory = ''Video Metrics'',
           currentSubSubcategory = [], currentInlineHeader = ''Legacy Fields'' \<rparr>, None)"
proof (intro conjI)
  show "parseDataLine ''#Legacy Fields'' = [''Legacy Fields'']"
    by (simp add: table_eval string_eval)
  show "processRow \<lparr> currentCategory = ''Engagement'', currentSubcategory = ''Video Metrics'',
                currentSubSubcategory = [], currentInlineHeader = [] \<rparr>
       [''Field'', ''Type'', ''Description''] [''Legacy Fields'']
     = (\<lparr> currentCategory = ''Engagement'', currentSubcategory = ''Video Metrics'',
           currentSubSubcategory = [], currentInlineHeader = ''Legacy Fields'' \<rparr>, None)"
    by (simp add: processRow_def inlineHeaderOf_def cellAt_def cellOr_def findIndex3 string_eval
          del: findIndex.simps)
qed (rule end_to_end_eval)

text \<open>
  The result is not the one of claim C1, where the second metric has the subcategory
  \<open>Video Metrics\<close>.
\<close>

theorem end_to_end_counterexample:
  "processMarkdownContent
     (joinWith (CHR 0x0A)
        [''# Engagement'', ''## Video Metrics'', fenceOpen, ''Field | Type | Description'',
         ''---'', ''video_views | number | Total views'', ''#Legacy Fields'',
         ''total_comments {-deprecated} | number | Total comments'', fenceClose])
   \<noteq> Inr [\<lparr> name = ''video_views'', category = ''Engagement'',
             subcategory = ''Video Metrics'', type = ''number'',
             description = ''Total views'', commentary = [], deprecationStatus = Active \<rparr>,
          \<lparr> name = ''total_comments'', category = ''Engagement'',
             subcategory = ''Video Metrics'', type = ''number'',
             description = ''Total comments'', commentary = [],
             deprecationStatus = Deprecated \<rparr>]"
  unfolding end_to_end_eval by simp

end
